theory Spec2Isabelle
  imports Main "HOL-Library.Word"
begin

unbundle bit_operations_syntax

section \<open>The hash engine of shathree.c\<close>

text \<open>
  The extension file \<^verbatim>\<open>src/sqlitecipher/sqlite3/shathree.c\<close> implements SHA3
  (Keccak-f[1600] in a sponge) and two SQL functions on top of it.  This theory embeds
  the C functions as HOL functions and proves the properties the specification states
  about them.  The C type \<^verbatim>\<open>u64\<close> is \<^typ>\<open>64 word\<close>, \<^verbatim>\<open>unsigned char\<close> is
  \<^typ>\<open>8 word\<close>; the counters \<^verbatim>\<open>nRate\<close>, \<^verbatim>\<open>nLoaded\<close>, \<^verbatim>\<open>ixMask\<close> and the loop
  indices are natural numbers, since they stay far below \<^term>\<open>2 ^ 32 :: nat\<close>.
\<close>

type_synonym u64 = "64 word"
type_synonym u8 = "8 word"

subsection \<open>KeccakF1600Step on the 25 lanes\<close>

text \<open>
  \<^verbatim>\<open>#define ROL64(a,x) ((a<<x)|(a>>(64-x)))\<close>.  The code only uses it with
  \<open>1 \<le> x \<le> 62\<close>; the lane that is not rotated is written without the macro.
\<close>

definition ROL64 :: "u64 \<Rightarrow> nat \<Rightarrow> u64" where
  "ROL64 a x = (push_bit x a) OR (drop_bit (64 - x) a)"

text \<open>The table \<^verbatim>\<open>static const u64 RC[]\<close> of lines 86--99.\<close>

definition RC :: "u64 list" where
  "RC = [
    0x0000000000000001,  0x0000000000008082,
    0x800000000000808a,  0x8000000080008000,
    0x000000000000808b,  0x0000000080000001,
    0x8000000080008081,  0x8000000000008009,
    0x000000000000008a,  0x0000000000000088,
    0x0000000080008009,  0x000000008000000a,
    0x000000008000808b,  0x800000000000008b,
    0x8000000000008089,  0x8000000000008003,
    0x8000000000008002,  0x8000000000000080,
    0x000000000000800a,  0x800000008000000a,
    0x8000000080008081,  0x8000000000008080,
    0x0000000080000001,  0x8000000080008008]"

text \<open>
  The body of the \<^verbatim>\<open>for\<close> loop (lines 128--394) is four rounds written out by hand.
  Each of the four definitions below is one of them, statement by statement: the macro
  \<^verbatim>\<open>DTAyx\<close> is \<^verbatim>\<open>p->u.s[5*y+x]\<close>, so a round starts from the lanes \<open>s ! (5*y+x)\<close>, every
  C assignment is one \<open>let\<close> binding (a later binding of the same name shadows the
  earlier one, as the assignment overwrites the variable), and the result is the
  array \<^verbatim>\<open>u.s\<close> after the last statement.  The argument \<open>rc\<close> is the round constant
  \<^verbatim>\<open>RC[i]\<close>, \<^verbatim>\<open>RC[i+1]\<close>, \<^verbatim>\<open>RC[i+2]\<close>, \<^verbatim>\<open>RC[i+3]\<close> respectively.  C's \<^verbatim>\<open>^\<close> associates to
  the left and \<open>XOR\<close> to the right; the operation is associative.
\<close>

text \<open>Lines 128--194.\<close>

definition KeccakF1600_round0 :: "u64 \<Rightarrow> u64 list \<Rightarrow> u64 list" where
  "KeccakF1600_round0 rc s = (let
     DTA00 = s ! 0;
     DTA01 = s ! 1;
     DTA02 = s ! 2;
     DTA03 = s ! 3;
     DTA04 = s ! 4;
     DTA10 = s ! 5;
     DTA11 = s ! 6;
     DTA12 = s ! 7;
     DTA13 = s ! 8;
     DTA14 = s ! 9;
     DTA20 = s ! 10;
     DTA21 = s ! 11;
     DTA22 = s ! 12;
     DTA23 = s ! 13;
     DTA24 = s ! 14;
     DTA30 = s ! 15;
     DTA31 = s ! 16;
     DTA32 = s ! 17;
     DTA33 = s ! 18;
     DTA34 = s ! 19;
     DTA40 = s ! 20;
     DTA41 = s ! 21;
     DTA42 = s ! 22;
     DTA43 = s ! 23;
     DTA44 = s ! 24;
     DTC0 = DTA00 XOR DTA10 XOR DTA20 XOR DTA30 XOR DTA40;
     DTC1 = DTA01 XOR DTA11 XOR DTA21 XOR DTA31 XOR DTA41;
     DTC2 = DTA02 XOR DTA12 XOR DTA22 XOR DTA32 XOR DTA42;
     DTC3 = DTA03 XOR DTA13 XOR DTA23 XOR DTA33 XOR DTA43;
     DTC4 = DTA04 XOR DTA14 XOR DTA24 XOR DTA34 XOR DTA44;
     DTD0 = DTC4 XOR ROL64 DTC1 1;
     DTD1 = DTC0 XOR ROL64 DTC2 1;
     DTD2 = DTC1 XOR ROL64 DTC3 1;
     DTD3 = DTC2 XOR ROL64 DTC4 1;
     DTD4 = DTC3 XOR ROL64 DTC0 1;
     DTB0 = (DTA00 XOR DTD0);
     DTB1 = ROL64 (DTA11 XOR DTD1) 44;
     DTB2 = ROL64 (DTA22 XOR DTD2) 43;
     DTB3 = ROL64 (DTA33 XOR DTD3) 21;
     DTB4 = ROL64 (DTA44 XOR DTD4) 14;
     DTA00 = DTB0 XOR (NOT DTB1 AND DTB2);
     DTA00 = DTA00 XOR rc;
     DTA11 = DTB1 XOR (NOT DTB2 AND DTB3);
     DTA22 = DTB2 XOR (NOT DTB3 AND DTB4);
     DTA33 = DTB3 XOR (NOT DTB4 AND DTB0);
     DTA44 = DTB4 XOR (NOT DTB0 AND DTB1);
     DTB2 = ROL64 (DTA20 XOR DTD0) 3;
     DTB3 = ROL64 (DTA31 XOR DTD1) 45;
     DTB4 = ROL64 (DTA42 XOR DTD2) 61;
     DTB0 = ROL64 (DTA03 XOR DTD3) 28;
     DTB1 = ROL64 (DTA14 XOR DTD4) 20;
     DTA20 = DTB0 XOR (NOT DTB1 AND DTB2);
     DTA31 = DTB1 XOR (NOT DTB2 AND DTB3);
     DTA42 = DTB2 XOR (NOT DTB3 AND DTB4);
     DTA03 = DTB3 XOR (NOT DTB4 AND DTB0);
     DTA14 = DTB4 XOR (NOT DTB0 AND DTB1);
     DTB4 = ROL64 (DTA40 XOR DTD0) 18;
     DTB0 = ROL64 (DTA01 XOR DTD1) 1;
     DTB1 = ROL64 (DTA12 XOR DTD2) 6;
     DTB2 = ROL64 (DTA23 XOR DTD3) 25;
     DTB3 = ROL64 (DTA34 XOR DTD4) 8;
     DTA40 = DTB0 XOR (NOT DTB1 AND DTB2);
     DTA01 = DTB1 XOR (NOT DTB2 AND DTB3);
     DTA12 = DTB2 XOR (NOT DTB3 AND DTB4);
     DTA23 = DTB3 XOR (NOT DTB4 AND DTB0);
     DTA34 = DTB4 XOR (NOT DTB0 AND DTB1);
     DTB1 = ROL64 (DTA10 XOR DTD0) 36;
     DTB2 = ROL64 (DTA21 XOR DTD1) 10;
     DTB3 = ROL64 (DTA32 XOR DTD2) 15;
     DTB4 = ROL64 (DTA43 XOR DTD3) 56;
     DTB0 = ROL64 (DTA04 XOR DTD4) 27;
     DTA10 = DTB0 XOR (NOT DTB1 AND DTB2);
     DTA21 = DTB1 XOR (NOT DTB2 AND DTB3);
     DTA32 = DTB2 XOR (NOT DTB3 AND DTB4);
     DTA43 = DTB3 XOR (NOT DTB4 AND DTB0);
     DTA04 = DTB4 XOR (NOT DTB0 AND DTB1);
     DTB3 = ROL64 (DTA30 XOR DTD0) 41;
     DTB4 = ROL64 (DTA41 XOR DTD1) 2;
     DTB0 = ROL64 (DTA02 XOR DTD2) 62;
     DTB1 = ROL64 (DTA13 XOR DTD3) 55;
     DTB2 = ROL64 (DTA24 XOR DTD4) 39;
     DTA30 = DTB0 XOR (NOT DTB1 AND DTB2);
     DTA41 = DTB1 XOR (NOT DTB2 AND DTB3);
     DTA02 = DTB2 XOR (NOT DTB3 AND DTB4);
     DTA13 = DTB3 XOR (NOT DTB4 AND DTB0);
     DTA24 = DTB4 XOR (NOT DTB0 AND DTB1)
   in [DTA00, DTA01, DTA02, DTA03, DTA04,
       DTA10, DTA11, DTA12, DTA13, DTA14,
       DTA20, DTA21, DTA22, DTA23, DTA24,
       DTA30, DTA31, DTA32, DTA33, DTA34,
       DTA40, DTA41, DTA42, DTA43, DTA44])"

text \<open>Lines 195--261.\<close>

definition KeccakF1600_round1 :: "u64 \<Rightarrow> u64 list \<Rightarrow> u64 list" where
  "KeccakF1600_round1 rc s = (let
     DTA00 = s ! 0;
     DTA01 = s ! 1;
     DTA02 = s ! 2;
     DTA03 = s ! 3;
     DTA04 = s ! 4;
     DTA10 = s ! 5;
     DTA11 = s ! 6;
     DTA12 = s ! 7;
     DTA13 = s ! 8;
     DTA14 = s ! 9;
     DTA20 = s ! 10;
     DTA21 = s ! 11;
     DTA22 = s ! 12;
     DTA23 = s ! 13;
     DTA24 = s ! 14;
     DTA30 = s ! 15;
     DTA31 = s ! 16;
     DTA32 = s ! 17;
     DTA33 = s ! 18;
     DTA34 = s ! 19;
     DTA40 = s ! 20;
     DTA41 = s ! 21;
     DTA42 = s ! 22;
     DTA43 = s ! 23;
     DTA44 = s ! 24;
     DTC0 = DTA00 XOR DTA20 XOR DTA40 XOR DTA10 XOR DTA30;
     DTC1 = DTA11 XOR DTA31 XOR DTA01 XOR DTA21 XOR DTA41;
     DTC2 = DTA22 XOR DTA42 XOR DTA12 XOR DTA32 XOR DTA02;
     DTC3 = DTA33 XOR DTA03 XOR DTA23 XOR DTA43 XOR DTA13;
     DTC4 = DTA44 XOR DTA14 XOR DTA34 XOR DTA04 XOR DTA24;
     DTD0 = DTC4 XOR ROL64 DTC1 1;
     DTD1 = DTC0 XOR ROL64 DTC2 1;
     DTD2 = DTC1 XOR ROL64 DTC3 1;
     DTD3 = DTC2 XOR ROL64 DTC4 1;
     DTD4 = DTC3 XOR ROL64 DTC0 1;
     DTB0 = (DTA00 XOR DTD0);
     DTB1 = ROL64 (DTA31 XOR DTD1) 44;
     DTB2 = ROL64 (DTA12 XOR DTD2) 43;
     DTB3 = ROL64 (DTA43 XOR DTD3) 21;
     DTB4 = ROL64 (DTA24 XOR DTD4) 14;
     DTA00 = DTB0 XOR (NOT DTB1 AND DTB2);
     DTA00 = DTA00 XOR rc;
     DTA31 = DTB1 XOR (NOT DTB2 AND DTB3);
     DTA12 = DTB2 XOR (NOT DTB3 AND DTB4);
     DTA43 = DTB3 XOR (NOT DTB4 AND DTB0);
     DTA24 = DTB4 XOR (NOT DTB0 AND DTB1);
     DTB2 = ROL64 (DTA40 XOR DTD0) 3;
     DTB3 = ROL64 (DTA21 XOR DTD1) 45;
     DTB4 = ROL64 (DTA02 XOR DTD2) 61;
     DTB0 = ROL64 (DTA33 XOR DTD3) 28;
     DTB1 = ROL64 (DTA14 XOR DTD4) 20;
     DTA40 = DTB0 XOR (NOT DTB1 AND DTB2);
     DTA21 = DTB1 XOR (NOT DTB2 AND DTB3);
     DTA02 = DTB2 XOR (NOT DTB3 AND DTB4);
     DTA33 = DTB3 XOR (NOT DTB4 AND DTB0);
     DTA14 = DTB4 XOR (NOT DTB0 AND DTB1);
     DTB4 = ROL64 (DTA30 XOR DTD0) 18;
     DTB0 = ROL64 (DTA11 XOR DTD1) 1;
     DTB1 = ROL64 (DTA42 XOR DTD2) 6;
     DTB2 = ROL64 (DTA23 XOR DTD3) 25;
     DTB3 = ROL64 (DTA04 XOR DTD4) 8;
     DTA30 = DTB0 XOR (NOT DTB1 AND DTB2);
     DTA11 = DTB1 XOR (NOT DTB2 AND DTB3);
     DTA42 = DTB2 XOR (NOT DTB3 AND DTB4);
     DTA23 = DTB3 XOR (NOT DTB4 AND DTB0);
     DTA04 = DTB4 XOR (NOT DTB0 AND DTB1);
     DTB1 = ROL64 (DTA20 XOR DTD0) 36;
     DTB2 = ROL64 (DTA01 XOR DTD1) 10;
     DTB3 = ROL64 (DTA32 XOR DTD2) 15;
     DTB4 = ROL64 (DTA13 XOR DTD3) 56;
     DTB0 = ROL64 (DTA44 XOR DTD4) 27;
     DTA20 = DTB0 XOR (NOT DTB1 AND DTB2);
     DTA01 = DTB1 XOR (NOT DTB2 AND DTB3);
     DTA32 = DTB2 XOR (NOT DTB3 AND DTB4);
     DTA13 = DTB3 XOR (NOT DTB4 AND DTB0);
     DTA44 = DTB4 XOR (NOT DTB0 AND DTB1);
     DTB3 = ROL64 (DTA10 XOR DTD0) 41;
     DTB4 = ROL64 (DTA41 XOR DTD1) 2;
     DTB0 = ROL64 (DTA22 XOR DTD2) 62;
     DTB1 = ROL64 (DTA03 XOR DTD3) 55;
     DTB2 = ROL64 (DTA34 XOR DTD4) 39;
     DTA10 = DTB0 XOR (NOT DTB1 AND DTB2);
     DTA41 = DTB1 XOR (NOT DTB2 AND DTB3);
     DTA22 = DTB2 XOR (NOT DTB3 AND DTB4);
     DTA03 = DTB3 XOR (NOT DTB4 AND DTB0);
     DTA34 = DTB4 XOR (NOT DTB0 AND DTB1)
   in [DTA00, DTA01, DTA02, DTA03, DTA04,
       DTA10, DTA11, DTA12, DTA13, DTA14,
       DTA20, DTA21, DTA22, DTA23, DTA24,
       DTA30, DTA31, DTA32, DTA33, DTA34,
       DTA40, DTA41, DTA42, DTA43, DTA44])"

text \<open>Lines 262--328.\<close>

definition KeccakF1600_round2 :: "u64 \<Rightarrow> u64 list \<Rightarrow> u64 list" where
  "KeccakF1600_round2 rc s = (let
     DTA00 = s ! 0;
     DTA01 = s ! 1;
     DTA02 = s ! 2;
     DTA03 = s ! 3;
     DTA04 = s ! 4;
     DTA10 = s ! 5;
     DTA11 = s ! 6;
     DTA12 = s ! 7;
     DTA13 = s ! 8;
     DTA14 = s ! 9;
     DTA20 = s ! 10;
     DTA21 = s ! 11;
     DTA22 = s ! 12;
     DTA23 = s ! 13;
     DTA24 = s ! 14;
     DTA30 = s ! 15;
     DTA31 = s ! 16;
     DTA32 = s ! 17;
     DTA33 = s ! 18;
     DTA34 = s ! 19;
     DTA40 = s ! 20;
     DTA41 = s ! 21;
     DTA42 = s ! 22;
     DTA43 = s ! 23;
     DTA44 = s ! 24;
     DTC0 = DTA00 XOR DTA40 XOR DTA30 XOR DTA20 XOR DTA10;
     DTC1 = DTA31 XOR DTA21 XOR DTA11 XOR DTA01 XOR DTA41;
     DTC2 = DTA12 XOR DTA02 XOR DTA42 XOR DTA32 XOR DTA22;
     DTC3 = DTA43 XOR DTA33 XOR DTA23 XOR DTA13 XOR DTA03;
     DTC4 = DTA24 XOR DTA14 XOR DTA04 XOR DTA44 XOR DTA34;
     DTD0 = DTC4 XOR ROL64 DTC1 1;
     DTD1 = DTC0 XOR ROL64 DTC2 1;
     DTD2 = DTC1 XOR ROL64 DTC3 1;
     DTD3 = DTC2 XOR ROL64 DTC4 1;
     DTD4 = DTC3 XOR ROL64 DTC0 1;
     DTB0 = (DTA00 XOR DTD0);
     DTB1 = ROL64 (DTA21 XOR DTD1) 44;
     DTB2 = ROL64 (DTA42 XOR DTD2) 43;
     DTB3 = ROL64 (DTA13 XOR DTD3) 21;
     DTB4 = ROL64 (DTA34 XOR DTD4) 14;
     DTA00 = DTB0 XOR (NOT DTB1 AND DTB2);
     DTA00 = DTA00 XOR rc;
     DTA21 = DTB1 XOR (NOT DTB2 AND DTB3);
     DTA42 = DTB2 XOR (NOT DTB3 AND DTB4);
     DTA13 = DTB3 XOR (NOT DTB4 AND DTB0);
     DTA34 = DTB4 XOR (NOT DTB0 AND DTB1);
     DTB2 = ROL64 (DTA30 XOR DTD0) 3;
     DTB3 = ROL64 (DTA01 XOR DTD1) 45;
     DTB4 = ROL64 (DTA22 XOR DTD2) 61;
     DTB0 = ROL64 (DTA43 XOR DTD3) 28;
     DTB1 = ROL64 (DTA14 XOR DTD4) 20;
     DTA30 = DTB0 XOR (NOT DTB1 AND DTB2);
     DTA01 = DTB1 XOR (NOT DTB2 AND DTB3);
     DTA22 = DTB2 XOR (NOT DTB3 AND DTB4);
     DTA43 = DTB3 XOR (NOT DTB4 AND DTB0);
     DTA14 = DTB4 XOR (NOT DTB0 AND DTB1);
     DTB4 = ROL64 (DTA10 XOR DTD0) 18;
     DTB0 = ROL64 (DTA31 XOR DTD1) 1;
     DTB1 = ROL64 (DTA02 XOR DTD2) 6;
     DTB2 = ROL64 (DTA23 XOR DTD3) 25;
     DTB3 = ROL64 (DTA44 XOR DTD4) 8;
     DTA10 = DTB0 XOR (NOT DTB1 AND DTB2);
     DTA31 = DTB1 XOR (NOT DTB2 AND DTB3);
     DTA02 = DTB2 XOR (NOT DTB3 AND DTB4);
     DTA23 = DTB3 XOR (NOT DTB4 AND DTB0);
     DTA44 = DTB4 XOR (NOT DTB0 AND DTB1);
     DTB1 = ROL64 (DTA40 XOR DTD0) 36;
     DTB2 = ROL64 (DTA11 XOR DTD1) 10;
     DTB3 = ROL64 (DTA32 XOR DTD2) 15;
     DTB4 = ROL64 (DTA03 XOR DTD3) 56;
     DTB0 = ROL64 (DTA24 XOR DTD4) 27;
     DTA40 = DTB0 XOR (NOT DTB1 AND DTB2);
     DTA11 = DTB1 XOR (NOT DTB2 AND DTB3);
     DTA32 = DTB2 XOR (NOT DTB3 AND DTB4);
     DTA03 = DTB3 XOR (NOT DTB4 AND DTB0);
     DTA24 = DTB4 XOR (NOT DTB0 AND DTB1);
     DTB3 = ROL64 (DTA20 XOR DTD0) 41;
     DTB4 = ROL64 (DTA41 XOR DTD1) 2;
     DTB0 = ROL64 (DTA12 XOR DTD2) 62;
     DTB1 = ROL64 (DTA33 XOR DTD3) 55;
     DTB2 = ROL64 (DTA04 XOR DTD4) 39;
     DTA20 = DTB0 XOR (NOT DTB1 AND DTB2);
     DTA41 = DTB1 XOR (NOT DTB2 AND DTB3);
     DTA12 = DTB2 XOR (NOT DTB3 AND DTB4);
     DTA33 = DTB3 XOR (NOT DTB4 AND DTB0);
     DTA04 = DTB4 XOR (NOT DTB0 AND DTB1)
   in [DTA00, DTA01, DTA02, DTA03, DTA04,
       DTA10, DTA11, DTA12, DTA13, DTA14,
       DTA20, DTA21, DTA22, DTA23, DTA24,
       DTA30, DTA31, DTA32, DTA33, DTA34,
       DTA40, DTA41, DTA42, DTA43, DTA44])"

text \<open>Lines 329--394.\<close>

definition KeccakF1600_round3 :: "u64 \<Rightarrow> u64 list \<Rightarrow> u64 list" where
  "KeccakF1600_round3 rc s = (let
     DTA00 = s ! 0;
     DTA01 = s ! 1;
     DTA02 = s ! 2;
     DTA03 = s ! 3;
     DTA04 = s ! 4;
     DTA10 = s ! 5;
     DTA11 = s ! 6;
     DTA12 = s ! 7;
     DTA13 = s ! 8;
     DTA14 = s ! 9;
     DTA20 = s ! 10;
     DTA21 = s ! 11;
     DTA22 = s ! 12;
     DTA23 = s ! 13;
     DTA24 = s ! 14;
     DTA30 = s ! 15;
     DTA31 = s ! 16;
     DTA32 = s ! 17;
     DTA33 = s ! 18;
     DTA34 = s ! 19;
     DTA40 = s ! 20;
     DTA41 = s ! 21;
     DTA42 = s ! 22;
     DTA43 = s ! 23;
     DTA44 = s ! 24;
     DTC0 = DTA00 XOR DTA30 XOR DTA10 XOR DTA40 XOR DTA20;
     DTC1 = DTA21 XOR DTA01 XOR DTA31 XOR DTA11 XOR DTA41;
     DTC2 = DTA42 XOR DTA22 XOR DTA02 XOR DTA32 XOR DTA12;
     DTC3 = DTA13 XOR DTA43 XOR DTA23 XOR DTA03 XOR DTA33;
     DTC4 = DTA34 XOR DTA14 XOR DTA44 XOR DTA24 XOR DTA04;
     DTD0 = DTC4 XOR ROL64 DTC1 1;
     DTD1 = DTC0 XOR ROL64 DTC2 1;
     DTD2 = DTC1 XOR ROL64 DTC3 1;
     DTD3 = DTC2 XOR ROL64 DTC4 1;
     DTD4 = DTC3 XOR ROL64 DTC0 1;
     DTB0 = (DTA00 XOR DTD0);
     DTB1 = ROL64 (DTA01 XOR DTD1) 44;
     DTB2 = ROL64 (DTA02 XOR DTD2) 43;
     DTB3 = ROL64 (DTA03 XOR DTD3) 21;
     DTB4 = ROL64 (DTA04 XOR DTD4) 14;
     DTA00 = DTB0 XOR (NOT DTB1 AND DTB2);
     DTA00 = DTA00 XOR rc;
     DTA01 = DTB1 XOR (NOT DTB2 AND DTB3);
     DTA02 = DTB2 XOR (NOT DTB3 AND DTB4);
     DTA03 = DTB3 XOR (NOT DTB4 AND DTB0);
     DTA04 = DTB4 XOR (NOT DTB0 AND DTB1);
     DTB2 = ROL64 (DTA10 XOR DTD0) 3;
     DTB3 = ROL64 (DTA11 XOR DTD1) 45;
     DTB4 = ROL64 (DTA12 XOR DTD2) 61;
     DTB0 = ROL64 (DTA13 XOR DTD3) 28;
     DTB1 = ROL64 (DTA14 XOR DTD4) 20;
     DTA10 = DTB0 XOR (NOT DTB1 AND DTB2);
     DTA11 = DTB1 XOR (NOT DTB2 AND DTB3);
     DTA12 = DTB2 XOR (NOT DTB3 AND DTB4);
     DTA13 = DTB3 XOR (NOT DTB4 AND DTB0);
     DTA14 = DTB4 XOR (NOT DTB0 AND DTB1);
     DTB4 = ROL64 (DTA20 XOR DTD0) 18;
     DTB0 = ROL64 (DTA21 XOR DTD1) 1;
     DTB1 = ROL64 (DTA22 XOR DTD2) 6;
     DTB2 = ROL64 (DTA23 XOR DTD3) 25;
     DTB3 = ROL64 (DTA24 XOR DTD4) 8;
     DTA20 = DTB0 XOR (NOT DTB1 AND DTB2);
     DTA21 = DTB1 XOR (NOT DTB2 AND DTB3);
     DTA22 = DTB2 XOR (NOT DTB3 AND DTB4);
     DTA23 = DTB3 XOR (NOT DTB4 AND DTB0);
     DTA24 = DTB4 XOR (NOT DTB0 AND DTB1);
     DTB1 = ROL64 (DTA30 XOR DTD0) 36;
     DTB2 = ROL64 (DTA31 XOR DTD1) 10;
     DTB3 = ROL64 (DTA32 XOR DTD2) 15;
     DTB4 = ROL64 (DTA33 XOR DTD3) 56;
     DTB0 = ROL64 (DTA34 XOR DTD4) 27;
     DTA30 = DTB0 XOR (NOT DTB1 AND DTB2);
     DTA31 = DTB1 XOR (NOT DTB2 AND DTB3);
     DTA32 = DTB2 XOR (NOT DTB3 AND DTB4);
     DTA33 = DTB3 XOR (NOT DTB4 AND DTB0);
     DTA34 = DTB4 XOR (NOT DTB0 AND DTB1);
     DTB3 = ROL64 (DTA40 XOR DTD0) 41;
     DTB4 = ROL64 (DTA41 XOR DTD1) 2;
     DTB0 = ROL64 (DTA42 XOR DTD2) 62;
     DTB1 = ROL64 (DTA43 XOR DTD3) 55;
     DTB2 = ROL64 (DTA44 XOR DTD4) 39;
     DTA40 = DTB0 XOR (NOT DTB1 AND DTB2);
     DTA41 = DTB1 XOR (NOT DTB2 AND DTB3);
     DTA42 = DTB2 XOR (NOT DTB3 AND DTB4);
     DTA43 = DTB3 XOR (NOT DTB4 AND DTB0);
     DTA44 = DTB4 XOR (NOT DTB0 AND DTB1)
   in [DTA00, DTA01, DTA02, DTA03, DTA04,
       DTA10, DTA11, DTA12, DTA13, DTA14,
       DTA20, DTA21, DTA22, DTA23, DTA24,
       DTA30, DTA31, DTA32, DTA33, DTA34,
       DTA40, DTA41, DTA42, DTA43, DTA44])"

text \<open>One pass through the loop body: \<^verbatim>\<open>RC[i]\<close> to \<^verbatim>\<open>RC[i+3]\<close> in this order.\<close>

definition KeccakF1600_body :: "nat \<Rightarrow> u64 list \<Rightarrow> u64 list" where
  "KeccakF1600_body i s =
     KeccakF1600_round3 (RC ! (i + 3))
       (KeccakF1600_round2 (RC ! (i + 2))
         (KeccakF1600_round1 (RC ! (i + 1))
           (KeccakF1600_round0 (RC ! i) s)))"

text \<open>\<^verbatim>\<open>for(i=0; i<24; i+=4){ ... }\<close>\<close>

function KeccakF1600_loop :: "nat \<Rightarrow> u64 list \<Rightarrow> u64 list" where
  "KeccakF1600_loop i s =
     (if i < 24 then KeccakF1600_loop (i + 4) (KeccakF1600_body i s) else s)"
  by pat_completeness auto
termination
  by (relation "measure (\<lambda>(i, s). 24 - i)") auto

declare KeccakF1600_loop.simps [simp del]

subsection \<open>The reference permutation, from the specification\<close>

text \<open>
  Section 4.1 of the specification describes Keccak-f[1600] round by round on the
  lanes \<open>lane[5*y+x]\<close>.  The definitions of this subsection follow its words, not the
  code: they are what the unrolled code is compared with.
\<close>

text \<open>The rotation offsets of the specification, at index \<open>5*y+x\<close>.\<close>

definition spec_offsets :: "nat list" where
  "spec_offsets =
     [0, 1, 62, 28, 27,
      36, 44, 6, 55, 20,
      3, 10, 43, 25, 39,
      41, 45, 15, 21, 8,
      18, 2, 61, 56, 14]"

text \<open>The 24 round constants of the specification, in round order.\<close>

definition spec_round_constants :: "u64 list" where
  "spec_round_constants =
     [0x0000000000000001, 0x0000000000008082, 0x800000000000808a, 0x8000000080008000,
      0x000000000000808b, 0x0000000080000001, 0x8000000080008081, 0x8000000000008009,
      0x000000000000008a, 0x0000000000000088, 0x0000000080008009, 0x000000008000000a,
      0x000000008000808b, 0x800000000000008b, 0x8000000000008089, 0x8000000000008003,
      0x8000000000008002, 0x8000000000000080, 0x000000000000800a, 0x800000008000000a,
      0x8000000080008081, 0x8000000000008080, 0x0000000080000001, 0x8000000080008008]"

text \<open>
  Theta: \<open>C[x]\<close> is the parity of column \<open>x\<close>, \<open>D[x] = C[x-1] XOR rotateLeft(C[x+1], 1)\<close>
  with the indices modulo 5, and \<open>D[x]\<close> is XOR-ed into every lane of column \<open>x\<close>.
\<close>

definition spec_C :: "u64 list \<Rightarrow> nat \<Rightarrow> u64" where
  "spec_C A x = A ! x XOR A ! (5 + x) XOR A ! (10 + x) XOR A ! (15 + x) XOR A ! (20 + x)"

definition spec_D :: "u64 list \<Rightarrow> nat \<Rightarrow> u64" where
  "spec_D A x = spec_C A ((x + 4) mod 5) XOR word_rotl 1 (spec_C A ((x + 1) mod 5))"

definition spec_theta :: "u64 list \<Rightarrow> u64 list" where
  "spec_theta A = map (\<lambda>i. A ! i XOR spec_D A (i mod 5)) [0..<25]"

text \<open>Rho: every lane is rotated left by its offset.\<close>

definition spec_rho :: "u64 list \<Rightarrow> u64 list" where
  "spec_rho A = map (\<lambda>i. word_rotl (spec_offsets ! i) (A ! i)) [0..<25]"

text \<open>Pi: the new lane at \<open>(x, y)\<close> is the old lane at \<open>((x + 3*y) mod 5, x)\<close>.\<close>

definition spec_pi :: "u64 list \<Rightarrow> u64 list" where
  "spec_pi A = map (\<lambda>i. A ! (5 * (i mod 5) + (i mod 5 + 3 * (i div 5)) mod 5)) [0..<25]"

text \<open>
  Chi: in every row, \<open>lane[x] = lane[x] XOR ((NOT lane[x+1]) AND lane[x+2])\<close>, indices
  modulo 5, from the values before Chi.
\<close>

definition spec_chi :: "u64 list \<Rightarrow> u64 list" where
  "spec_chi A =
     map (\<lambda>i. A ! i XOR (NOT (A ! (5 * (i div 5) + (i mod 5 + 1) mod 5))
                          AND A ! (5 * (i div 5) + (i mod 5 + 2) mod 5))) [0..<25]"

text \<open>Iota: the round constant is XOR-ed into lane \<open>(0, 0)\<close>.\<close>

definition spec_iota :: "u64 \<Rightarrow> u64 list \<Rightarrow> u64 list" where
  "spec_iota rc A = A[0 := A ! 0 XOR rc]"

definition spec_round :: "u64 \<Rightarrow> u64 list \<Rightarrow> u64 list" where
  "spec_round rc A = spec_iota rc (spec_chi (spec_pi (spec_rho (spec_theta A))))"

text \<open>The permutation: the 24 rounds, one per round constant, in round order.\<close>

definition spec_keccak_f1600 :: "u64 list \<Rightarrow> u64 list" where
  "spec_keccak_f1600 A = foldl (\<lambda>B rc. spec_round rc B) A spec_round_constants"

subsection \<open>The build, the host and the union\<close>

text \<open>
  What the code leaves to the build and to the host: the value of the macro
  \<^verbatim>\<open>SHA3_BYTEORDER\<close> (1234, 4321 or 0, lines 50--61), the byte order in which the host
  stores a \<^verbatim>\<open>u64\<close>, and whether a local buffer of the code (named by its C identifier)
  lies at an address that is a multiple of 8, which is all the test
  \<^verbatim>\<open>((aData - (const unsigned char*)0)&7)==0\<close> of \<^verbatim>\<open>SHA3Update\<close> reads of an address.
\<close>

record machine =
  SHA3_BYTEORDER :: nat
  little_endian :: bool
  local_aligned :: "string \<Rightarrow> bool"


text \<open>A \<^verbatim>\<open>u64\<close> in memory: eight bytes, least significant first on a little-endian host.\<close>

definition le64 :: "u8 list \<Rightarrow> u64" where
  "le64 bs = foldr (\<lambda>b w. ucast b OR push_bit 8 w) bs 0"

definition bytes_le :: "u64 \<Rightarrow> u8 list" where
  "bytes_le w = map (\<lambda>j. ucast (drop_bit (8 * j) w)) [0..<8]"

definition load64 :: "machine \<Rightarrow> u8 list \<Rightarrow> u64" where
  "load64 m bs = (if little_endian m then le64 bs else le64 (rev bs))"

definition store64 :: "machine \<Rightarrow> u64 \<Rightarrow> u8 list" where
  "store64 m w = (if little_endian m then bytes_le w else rev (bytes_le w))"

text \<open>
  \<^verbatim>\<open>struct SHA3Context\<close> (lines 68--76).  The union \<^verbatim>\<open>u\<close> is its 1600 bytes \<^verbatim>\<open>u.x\<close>; the
  lane \<^verbatim>\<open>u.s[k]\<close> is the \<^verbatim>\<open>u64\<close> the host reads from the bytes \<open>8*k .. 8*k+7\<close>.  The field
  \<open>nKeccak\<close> is not in the C structure: it counts the calls of \<^verbatim>\<open>KeccakF1600Step\<close> on
  this context, so that claims about the number of permutations can be stated.
\<close>

record SHA3Context =
  u_x :: "u8 list"
  nRate :: nat
  nLoaded :: nat
  ixMask :: nat
  nKeccak :: nat

definition get_s :: "machine \<Rightarrow> u8 list \<Rightarrow> nat \<Rightarrow> u64" where
  "get_s m xs k = load64 m (take 8 (drop (8 * k) xs))"

definition set_s :: "machine \<Rightarrow> u8 list \<Rightarrow> nat \<Rightarrow> u64 \<Rightarrow> u8 list" where
  "set_s m xs k w = take (8 * k) xs @ store64 m w @ drop (8 * k + 8) xs"

definition u_s :: "machine \<Rightarrow> SHA3Context \<Rightarrow> u64 list" where
  "u_s m p = map (get_s m (u_x p)) [0..<25]"

text \<open>
  \<^verbatim>\<open>KeccakF1600Step\<close> (lines 81--396) reads and writes the 25 lanes \<^verbatim>\<open>p->u.s[0..24]\<close> and
  nothing else of the context: the lanes are read, the loop runs on them, and they
  are written back over the first 200 bytes.
\<close>

definition KeccakF1600Step :: "machine \<Rightarrow> SHA3Context \<Rightarrow> SHA3Context" where
  "KeccakF1600Step m p =
     p\<lparr>u_x := concat (map (store64 m) (KeccakF1600_loop 0 (u_s m p))) @ drop 200 (u_x p),
       nKeccak := nKeccak p + 1\<rparr>"

subsection \<open>SHA3Init, SHA3Update, SHA3Final\<close>

text \<open>
  \<^verbatim>\<open>SHA3Init\<close> (lines 403--426): \<^verbatim>\<open>memset\<close>, the rate from \<open>iSize\<close> (a C \<^verbatim>\<open>int\<close>; the
  arithmetic stays within \<open>0 .. 1600\<close> on the guarded branch), and the mask by which
  a byte index is corrected on a big-endian host.
\<close>

definition SHA3Init :: "machine \<Rightarrow> int \<Rightarrow> SHA3Context" where
  "SHA3Init m iSize =
     \<lparr>u_x = replicate 1600 0,
      nRate = (if iSize \<ge> 128 \<and> iSize \<le> 512
               then nat ((1600 - ((iSize + 31) AND (NOT 31)) * 2) div 8)
               else nat ((1600 - 2 * 256) div 8)),
      nLoaded = 0,
      ixMask = (if SHA3_BYTEORDER m = 1234 then 0
                else if SHA3_BYTEORDER m = 4321 then 7
                else if little_endian m then 0 else 7),
      nKeccak = 0\<rparr>"

text \<open>
  A buffer passed to \<^verbatim>\<open>SHA3Update\<close>: the \<open>nData\<close> bytes at \<open>aData\<close>, and whether
  \<open>aData\<close> is a multiple of 8.
\<close>

record buffer =
  buf_aligned :: bool
  buf_bytes :: "u8 list"

text \<open>
  The body of the first loop of \<^verbatim>\<open>SHA3Update\<close> (lines 441--446), compiled only when
  \<^verbatim>\<open>SHA3_BYTEORDER==1234\<close>: the \<^verbatim>\<open>u64\<close> read at \<^verbatim>\<open>&aData[i]\<close>, here the list \<open>w\<close> of
  its eight bytes, is XOR-ed into the lane \<^verbatim>\<open>u.s[nLoaded/8]\<close>.
\<close>

definition SHA3Update_word :: "machine \<Rightarrow> SHA3Context \<Rightarrow> u8 list \<Rightarrow> SHA3Context" where
  "SHA3Update_word m p w =
     (let k = nLoaded p div 8;
          p = p\<lparr>u_x := set_s m (u_x p) k (get_s m (u_x p) k XOR load64 m w)\<rparr>;
          p = p\<lparr>nLoaded := nLoaded p + 8\<rparr>
      in if nLoaded p \<ge> nRate p then (KeccakF1600Step m p)\<lparr>nLoaded := 0\<rparr> else p)"

text \<open>
  The first loop, \<^verbatim>\<open>for(; i+7<nData; i+=8)\<close>: it runs while eight bytes are left, and
  returns the context and the data it has not consumed.
\<close>

fun SHA3Update_words :: "machine \<Rightarrow> SHA3Context \<Rightarrow> u8 list \<Rightarrow> SHA3Context \<times> u8 list" where
  "SHA3Update_words m p (b0 # b1 # b2 # b3 # b4 # b5 # b6 # b7 # rest) =
     SHA3Update_words m (SHA3Update_word m p [b0, b1, b2, b3, b4, b5, b6, b7]) rest"
| "SHA3Update_words m p aData = (p, aData)"

text \<open>
  The index of the byte loop (lines 451--457): \<^verbatim>\<open>nLoaded\<close>, \<^verbatim>\<open>nLoaded^0x07\<close> or
  \<^verbatim>\<open>nLoaded^p->ixMask\<close>, by the macro.
\<close>

definition x_index :: "machine \<Rightarrow> SHA3Context \<Rightarrow> nat" where
  "x_index m p =
     (if SHA3_BYTEORDER m = 1234 then nLoaded p
      else if SHA3_BYTEORDER m = 4321 then nLoaded p XOR 7
      else nLoaded p XOR ixMask p)"

text \<open>The body of the second loop (lines 451--462) for the byte \<open>b\<close> at \<^verbatim>\<open>aData[i]\<close>.\<close>

definition SHA3Update_byte :: "machine \<Rightarrow> SHA3Context \<Rightarrow> u8 \<Rightarrow> SHA3Context" where
  "SHA3Update_byte m p b =
     (let j = x_index m p;
          p = p\<lparr>u_x := (u_x p)[j := u_x p ! j XOR b]\<rparr>;
          p = p\<lparr>nLoaded := nLoaded p + 1\<rparr>
      in if nLoaded p = nRate p then (KeccakF1600Step m p)\<lparr>nLoaded := 0\<rparr> else p)"

text \<open>The second loop, \<^verbatim>\<open>for(; i<nData; i++)\<close>.\<close>

fun SHA3Update_bytes :: "machine \<Rightarrow> SHA3Context \<Rightarrow> u8 list \<Rightarrow> SHA3Context" where
  "SHA3Update_bytes m p [] = p"
| "SHA3Update_bytes m p (b # rest) = SHA3Update_bytes m (SHA3Update_byte m p b) rest"

text \<open>\<^verbatim>\<open>SHA3Update\<close> (lines 432--464).\<close>

definition SHA3Update :: "machine \<Rightarrow> SHA3Context \<Rightarrow> buffer \<Rightarrow> SHA3Context" where
  "SHA3Update m p aData =
     (let (p, rest) =
            (if SHA3_BYTEORDER m = 1234 \<and> nLoaded p mod 8 = 0 \<and> buf_aligned aData
             then SHA3Update_words m p (buf_bytes aData)
             else (p, buf_bytes aData))
      in SHA3Update_bytes m p rest)"

text \<open>The local constants \<^verbatim>\<open>c1\<close>, \<^verbatim>\<open>c2\<close>, \<^verbatim>\<open>c3\<close> of \<^verbatim>\<open>SHA3Final\<close>, as buffers of one byte.\<close>

definition local_byte :: "machine \<Rightarrow> string \<Rightarrow> u8 \<Rightarrow> buffer" where
  "local_byte m name c = \<lparr>buf_aligned = local_aligned m name, buf_bytes = [c]\<rparr>"

text \<open>The padding of \<^verbatim>\<open>SHA3Final\<close> (lines 473--482).\<close>

definition SHA3Final_pad :: "machine \<Rightarrow> SHA3Context \<Rightarrow> SHA3Context" where
  "SHA3Final_pad m p =
     (if nLoaded p = nRate p - 1
      then SHA3Update m p (local_byte m ''c1'' 0x86)
      else (let p = SHA3Update m p (local_byte m ''c2'' 0x06);
                p = p\<lparr>nLoaded := nRate p - 1\<rparr>
            in SHA3Update m p (local_byte m ''c3'' 0x80)))"

text \<open>
  The copy loop (lines 483--485):
  \<^verbatim>\<open>for(i=0; i<p->nRate; i++) p->u.x[i+p->nRate] = p->u.x[i^p->ixMask];\<close>
\<close>

definition SHA3Final_copy :: "SHA3Context \<Rightarrow> SHA3Context" where
  "SHA3Final_copy p =
     p\<lparr>u_x := fold (\<lambda>i xs. xs[i + nRate p := xs ! (i XOR ixMask p)]) [0..<nRate p] (u_x p)\<rparr>"

text \<open>
  \<^verbatim>\<open>SHA3Final\<close> (lines 471--487) returns the pointer \<^verbatim>\<open>&p->u.x[p->nRate]\<close>: the context
  after the call and the offset \<open>nRate\<close> into \<open>u.x\<close>.
\<close>

definition SHA3Final :: "machine \<Rightarrow> SHA3Context \<Rightarrow> SHA3Context \<times> nat" where
  "SHA3Final m p = (let p = SHA3Final_copy (SHA3Final_pad m p) in (p, nRate p))"

text \<open>The \<open>n\<close> bytes at the pointer \<^verbatim>\<open>SHA3Final\<close> returned, as \<^verbatim>\<open>sqlite3_result_blob\<close> copies them.\<close>

definition blob_at :: "SHA3Context \<times> nat \<Rightarrow> nat \<Rightarrow> u8 list" where
  "blob_at r n = take n (drop (snd r) (u_x (fst r)))"

subsection \<open>The SQL functions\<close>

text \<open>
  SQLite itself is not part of the repository.  A value, a prepared statement and the
  database connection are modelled by what the API functions called by the code
  return for them.  Texts and blobs are byte lists; \<open>str\<close> writes a C string literal.
\<close>

definition str :: "string \<Rightarrow> u8 list" where
  "str s = map of_char s"

datatype sqlite_type = SQLITE_INTEGER | SQLITE_FLOAT | SQLITE_TEXT | SQLITE_BLOB | SQLITE_NULL

text \<open>
  An argument of an SQL function: \<^verbatim>\<open>sqlite3_value_type\<close>; the
  \<^verbatim>\<open>sqlite3_value_bytes\<close> bytes at the pointer \<^verbatim>\<open>sqlite3_value_blob\<close>; those at the
  pointer \<^verbatim>\<open>sqlite3_value_text\<close> (for an SQL NULL that pointer is NULL and there are no
  bytes); and the 64-bit integer \<^verbatim>\<open>sqlite3_value_int64\<close> that the value holds or
  converts to, in two's complement.
\<close>

record sqlite3_value =
  value_type :: sqlite_type
  value_blob :: buffer
  value_text :: buffer
  value_int64 :: u64

text \<open>
  \<^verbatim>\<open>sqlite3_value_int\<close> returns a C \<^verbatim>\<open>int\<close>: the 64-bit integer of the value converted to
  32 bits, which keeps its low 32 bits, read as a signed number.
\<close>

definition sqlite3_value_int :: "sqlite3_value \<Rightarrow> int" where
  "sqlite3_value_int v = sint (ucast (value_int64 v) :: 32 word)"

text \<open>
  What a call leaves in the \<^verbatim>\<open>sqlite3_context\<close>: nothing (SQL NULL), an error message,
  or a blob.  \<open>ResultUndefined\<close> stands for a run that leaves defined C behaviour
  (\<^verbatim>\<open>strlen\<close> of a NULL pointer).
\<close>

datatype sql_result = ResultNull | ResultError "u8 list" | ResultBlob "u8 list" | ResultUndefined

definition size_error :: "u8 list" where
  "size_error = str ''SHA3 size should be one of: 224 256 384 512''"

text \<open>
  \<^verbatim>\<open>sha3Func\<close> (lines 500--527).  The function is registered for one and for two
  arguments.  Its result is paired with the local context \<^verbatim>\<open>cx\<close> at the return:
  \<open>None\<close> when \<^verbatim>\<open>SHA3Init\<close> was never called on it.
\<close>

definition sha3Func :: "machine \<Rightarrow> sqlite3_value list \<Rightarrow> sql_result \<times> SHA3Context option" where
  "sha3Func m argv =
     (let eType = value_type (argv ! 0);
          iSize = (if length argv = 1 then 256 else sqlite3_value_int (argv ! 1))
      in if length argv \<noteq> 1 \<and> iSize \<noteq> 224 \<and> iSize \<noteq> 256 \<and> iSize \<noteq> 384 \<and> iSize \<noteq> 512
         then (ResultError size_error, None)
         else if eType = SQLITE_NULL then (ResultNull, None)
         else (let cx = SHA3Init m iSize;
                   cx = (if eType = SQLITE_BLOB
                         then SHA3Update m cx (value_blob (argv ! 0))
                         else SHA3Update m cx (value_text (argv ! 0)));
                   r = SHA3Final m cx
               in (ResultBlob (blob_at r (nat (iSize div 8))), Some (fst r))))"

text \<open>
  What \<^verbatim>\<open>sqlite3_vsnprintf\<close> prints for \<^verbatim>\<open>%d\<close> and a number that is not negative: its
  decimal digits.
\<close>

function dec :: "nat \<Rightarrow> u8 list" where
  "dec n = (if n < 10 then [of_nat (48 + n)] else dec (n div 10) @ [of_nat (48 + n mod 10)])"
  by pat_completeness auto
termination
  by (relation "measure (\<lambda>n. n)") auto

declare dec.simps [simp del]

text \<open>
  \<^verbatim>\<open>hash_step_vformat\<close> (lines 532--545) with the formats \<^verbatim>\<open>"S%d:"\<close>, \<^verbatim>\<open>"T%d:"\<close> and \<^verbatim>\<open>"B%d:"\<close>
  of its three calls: \<open>c\<close> is the letter.  The buffer \<^verbatim>\<open>zBuf\<close> holds 50 bytes, so at most
  49 are hashed.
\<close>

definition hash_step_vformat :: "machine \<Rightarrow> SHA3Context \<Rightarrow> char \<Rightarrow> nat \<Rightarrow> SHA3Context" where
  "hash_step_vformat m p c n =
     SHA3Update m p \<lparr>buf_aligned = local_aligned m ''zBuf'',
                     buf_bytes = take 49 (of_char c # dec n @ str '':'')\<rparr>"

text \<open>
  A column of a result row, by \<^verbatim>\<open>sqlite3_column_type\<close>: an integer is the
  \<^verbatim>\<open>sqlite3_int64\<close> of \<^verbatim>\<open>sqlite3_column_int64\<close> and a float the \<^verbatim>\<open>double\<close> of
  \<^verbatim>\<open>sqlite3_column_double\<close>, both as the 64 bits that \<^verbatim>\<open>memcpy(&u, &v, 8)\<close> copies.
\<close>

datatype column = COL_NULL | COL_INTEGER u64 | COL_FLOAT u64 | COL_TEXT buffer | COL_BLOB buffer

text \<open>
  \<^verbatim>\<open>for(j=8; j>=1; j--){ x[j] = u & 0xff; u >>= 8; }\<close> and then \<^verbatim>\<open>x[0] = c\<close>, on the
  local array \<^verbatim>\<open>unsigned char x[9]\<close> (lines 645--649 and 659--663).  All nine entries
  are assigned, so the initial content of the array does not matter.
\<close>

fun encode_loop :: "nat \<Rightarrow> u64 \<Rightarrow> u8 list \<Rightarrow> u8 list" where
  "encode_loop 0 u xs = xs"
| "encode_loop (Suc j) u xs = encode_loop j (drop_bit 8 u) (xs[Suc j := ucast (u AND 0xff)])"

definition encode_u64 :: "char \<Rightarrow> u64 \<Rightarrow> u8 list" where
  "encode_u64 c v = (encode_loop 8 v (replicate 9 0))[0 := of_char c]"

text \<open>The \<^verbatim>\<open>switch\<close> of lines 634--681 for one column.\<close>

fun hash_column :: "machine \<Rightarrow> SHA3Context \<Rightarrow> column \<Rightarrow> SHA3Context" where
  "hash_column m cx COL_NULL =
     SHA3Update m cx \<lparr>buf_aligned = local_aligned m ''N'', buf_bytes = str ''N''\<rparr>"
| "hash_column m cx (COL_INTEGER v) =
     SHA3Update m cx \<lparr>buf_aligned = local_aligned m ''x'', buf_bytes = encode_u64 CHR ''I'' v\<rparr>"
| "hash_column m cx (COL_FLOAT r) =
     SHA3Update m cx \<lparr>buf_aligned = local_aligned m ''x'', buf_bytes = encode_u64 CHR ''F'' r\<rparr>"
| "hash_column m cx (COL_TEXT z2) =
     SHA3Update m (hash_step_vformat m cx CHR ''T'' (length (buf_bytes z2))) z2"
| "hash_column m cx (COL_BLOB z2) =
     SHA3Update m (hash_step_vformat m cx CHR ''B'' (length (buf_bytes z2))) z2"

text \<open>One row: the byte \<^verbatim>\<open>"R"\<close>, then the columns \<open>0 .. nCol-1\<close> (lines 632--682).\<close>

definition hash_row :: "machine \<Rightarrow> SHA3Context \<Rightarrow> column list \<Rightarrow> SHA3Context" where
  "hash_row m cx row =
     fold (\<lambda>c cx. hash_column m cx c) row
       (SHA3Update m cx \<lparr>buf_aligned = local_aligned m ''R'', buf_bytes = str ''R''\<rparr>)"

text \<open>
  A prepared statement: \<^verbatim>\<open>sqlite3_stmt_readonly\<close>; the text at \<^verbatim>\<open>sqlite3_sql\<close>, or \<open>None\<close>
  when that pointer is NULL; and the rows that \<^verbatim>\<open>sqlite3_step\<close> yields before it returns
  something other than \<^verbatim>\<open>SQLITE_ROW\<close>, each with \<^verbatim>\<open>sqlite3_column_count\<close> columns.
\<close>

record sqlite3_stmt =
  stmt_readonly :: bool
  stmt_sql :: "buffer option"
  stmt_rows :: "column list list"

text \<open>
  What \<^verbatim>\<open>sqlite3_prepare_v2(db, zSql, -1, &pStmt, &zSql)\<close> answers for the text \<open>zSql\<close>:
  the return code, the statement, the rest of the text (the new \<open>zSql\<close>), and the
  message \<^verbatim>\<open>sqlite3_errmsg\<close> gives afterwards.  The connection is this function.
\<close>

record prepared =
  prep_rc :: int
  prep_stmt :: sqlite3_stmt
  prep_tail :: "u8 list"
  prep_errmsg :: "u8 list"

type_synonym sqlite3 = "u8 list \<Rightarrow> prepared"

text \<open>Lines 624--683 for one statement whose text is \<open>z\<close>.\<close>

definition hash_stmt :: "machine \<Rightarrow> SHA3Context \<Rightarrow> buffer \<Rightarrow> column list list \<Rightarrow> SHA3Context" where
  "hash_stmt m cx z rows =
     fold (\<lambda>row cx. hash_row m cx row) rows
       (SHA3Update m (hash_step_vformat m cx CHR ''S'' (length (buf_bytes z))) z)"

text \<open>
  The loop \<^verbatim>\<open>while( zSql[0] )\<close> (lines 607--685).  It ends with the context, or with
  the result of an early \<^verbatim>\<open>return\<close> and the context at that moment.  Whether it ends at all is up to the host (the
  rest of the text need not get shorter), so the value is optional: \<open>None\<close> is a run
  that never returns.
\<close>

partial_function (option) sha3Query_loop ::
  "machine \<Rightarrow> sqlite3 \<Rightarrow> SHA3Context \<Rightarrow> u8 list \<Rightarrow> (sql_result \<times> SHA3Context + SHA3Context) option" where
  "sha3Query_loop m db cx zSql =
     (if zSql = [] then Some (Inr cx)
      else if prep_rc (db zSql) \<noteq> 0
      then Some (Inl (ResultError (str ''error SQL statement ['' @ prep_tail (db zSql) @
                                   str '']: '' @ prep_errmsg (db zSql)), cx))
      else if \<not> stmt_readonly (prep_stmt (db zSql))
      then Some (Inl (ResultError (str ''non-query: ['' @
                        (case stmt_sql (prep_stmt (db zSql)) of None \<Rightarrow> []
                         | Some z \<Rightarrow> buf_bytes z) @ str '']''), cx))
      else (case stmt_sql (prep_stmt (db zSql)) of
              None \<Rightarrow> Some (Inl (ResultUndefined, cx))
            | Some z \<Rightarrow>
                sha3Query_loop m db (hash_stmt m cx z (stmt_rows (prep_stmt (db zSql))))
                  (prep_tail (db zSql))))"

text \<open>
  \<^verbatim>\<open>sha3QueryFunc\<close> (lines 579--687).  \<open>zSql\<close> is the C string at
  \<^verbatim>\<open>sqlite3_value_text(argv[0])\<close>, which ends at the first zero byte, and is the NULL
  pointer for an SQL NULL.  As for \<^verbatim>\<open>sha3Func\<close>, the result is paired with the local
  context \<^verbatim>\<open>cx\<close> at the return, \<open>None\<close> when \<^verbatim>\<open>SHA3Init\<close> was never called on it.
\<close>

definition sha3QueryFunc ::
  "machine \<Rightarrow> sqlite3 \<Rightarrow> sqlite3_value list \<Rightarrow> (sql_result \<times> SHA3Context option) option" where
  "sha3QueryFunc m db argv =
     (let zSql = takeWhile (\<lambda>c. c \<noteq> 0) (buf_bytes (value_text (argv ! 0)));
          iSize = (if length argv = 1 then 256 else sqlite3_value_int (argv ! 1))
      in if length argv \<noteq> 1 \<and> iSize \<noteq> 224 \<and> iSize \<noteq> 256 \<and> iSize \<noteq> 384 \<and> iSize \<noteq> 512
         then Some (ResultError size_error, None)
         else if value_type (argv ! 0) = SQLITE_NULL then Some (ResultNull, None)
         else (case sha3Query_loop m db (SHA3Init m iSize) zSql of
                 None \<Rightarrow> None
               | Some (Inl (e, cx)) \<Rightarrow> Some (e, Some cx)
               | Some (Inr cx) \<Rightarrow>
                   (let r = SHA3Final m cx
                    in Some (ResultBlob (blob_at r (nat (iSize div 8))), Some (fst r)))))"

subsection \<open>Auxiliary definitions\<close>

text \<open>
  The unrolled code does not move the lanes as Pi does; it leaves them where they are
  and reads them from there in the next round.  After the first, second and third
  round of the loop body the lane \<open>T ! i\<close> of the reference state \<open>T\<close> is therefore
  found in another element of \<^verbatim>\<open>u.s\<close>; after the fourth round every lane is back in
  its own element.
\<close>

definition layout1 :: "u64 list \<Rightarrow> u64 list" where
  "layout1 T = [T ! 0, T ! 11, T ! 22, T ! 8, T ! 19, T ! 15, T ! 1, T ! 12, T ! 23, T ! 9, T ! 5, T ! 16, T ! 2, T ! 13, T ! 24, T ! 20, T ! 6, T ! 17, T ! 3, T ! 14, T ! 10, T ! 21, T ! 7, T ! 18, T ! 4]"

definition layout2 :: "u64 list \<Rightarrow> u64 list" where
  "layout2 T = [T ! 0, T ! 16, T ! 7, T ! 23, T ! 14, T ! 20, T ! 11, T ! 2, T ! 18, T ! 9, T ! 15, T ! 6, T ! 22, T ! 13, T ! 4, T ! 10, T ! 1, T ! 17, T ! 8, T ! 24, T ! 5, T ! 21, T ! 12, T ! 3, T ! 19]"

definition layout3 :: "u64 list \<Rightarrow> u64 list" where
  "layout3 T = [T ! 0, T ! 6, T ! 12, T ! 18, T ! 24, T ! 10, T ! 16, T ! 22, T ! 3, T ! 9, T ! 20, T ! 1, T ! 7, T ! 13, T ! 19, T ! 5, T ! 11, T ! 17, T ! 23, T ! 4, T ! 15, T ! 21, T ! 2, T ! 8, T ! 14]"


text \<open>
  The three calls in the order the SQL functions make them, for a message handed
  over in chunks: \<^verbatim>\<open>SHA3Init\<close>, one \<^verbatim>\<open>SHA3Update\<close> per chunk, \<^verbatim>\<open>SHA3Final\<close>, and the
  \<open>iSize/8\<close> bytes read at the pointer returned.
\<close>

definition sha3_context :: "machine \<Rightarrow> int \<Rightarrow> buffer list \<Rightarrow> SHA3Context" where
  "sha3_context m iSize chunks = fold (\<lambda>c p. SHA3Update m p c) chunks (SHA3Init m iSize)"

definition sha3_chunks :: "machine \<Rightarrow> int \<Rightarrow> buffer list \<Rightarrow> u8 list" where
  "sha3_chunks m iSize chunks =
     blob_at (SHA3Final m (sha3_context m iSize chunks)) (nat (iSize div 8))"


text \<open>
  What holds of a context between the calls: the union has its 1600 bytes, the rate
  is a multiple of 8 and at most 200, fewer than \<open>nRate\<close> bytes are loaded, and the
  mask is the one \<^verbatim>\<open>SHA3Init\<close> sets.
\<close>

definition ctx_ok :: "machine \<Rightarrow> SHA3Context \<Rightarrow> bool" where
  "ctx_ok m p =
     (length (u_x p) = 1600 \<and> nRate p mod 8 = 0 \<and> nRate p \<le> 200 \<and> nLoaded p < nRate p \<and>
      ixMask p = (if SHA3_BYTEORDER m = 1234 then 0
                  else if SHA3_BYTEORDER m = 4321 then 7
                  else if little_endian m then 0 else 7))"


text \<open>A little-endian host whose build knows it, with every local buffer aligned.\<close>

definition host_le :: machine where
  "host_le = \<lparr>SHA3_BYTEORDER = 1234, little_endian = True, local_aligned = (\<lambda>_. True)\<rparr>"



text \<open>
  \<open>reaches db zSql r\<close>: started on the text \<open>zSql\<close>, the loop of \<^verbatim>\<open>sha3QueryFunc\<close> comes to
  an iteration in which \<^verbatim>\<open>sqlite3_prepare_v2\<close> answers \<open>r\<close>; every statement before
  compiled, was read-only and had a text.
\<close>

inductive reaches :: "sqlite3 \<Rightarrow> u8 list \<Rightarrow> prepared \<Rightarrow> bool" where
  first: "zSql \<noteq> [] \<Longrightarrow> reaches db zSql (db zSql)"
| later: "zSql \<noteq> [] \<Longrightarrow> prep_rc (db zSql) = 0 \<Longrightarrow> stmt_readonly (prep_stmt (db zSql)) \<Longrightarrow>
          stmt_sql (prep_stmt (db zSql)) = Some z \<Longrightarrow>
          reaches db (prep_tail (db zSql)) r \<Longrightarrow> reaches db zSql r"


text \<open>The number of permutations run on the local context of an SQL function.\<close>

definition permutations :: "SHA3Context option \<Rightarrow> nat" where
  "permutations c = (case c of None \<Rightarrow> 0 | Some p \<Rightarrow> nKeccak p)"

text \<open>Arguments and a connection to try the SQL functions on.\<close>

definition text_value :: "string \<Rightarrow> sqlite3_value" where
  "text_value s =
     \<lparr>value_type = SQLITE_TEXT,
      value_blob = \<lparr>buf_aligned = True, buf_bytes = str s\<rparr>,
      value_text = \<lparr>buf_aligned = True, buf_bytes = str s\<rparr>,
      value_int64 = 0\<rparr>"

text \<open>
  An SQL integer, which has 64 bits.  Read as a text or a blob it is its decimal
  digits, after a minus sign when it is negative.
\<close>

definition int_text :: "u64 \<Rightarrow> u8 list" where
  "int_text i = (if sint i < 0 then of_char CHR ''-'' # dec (nat (- sint i)) else dec (nat (sint i)))"

definition int_value :: "u64 \<Rightarrow> sqlite3_value" where
  "int_value i =
     \<lparr>value_type = SQLITE_INTEGER,
      value_blob = \<lparr>buf_aligned = True, buf_bytes = int_text i\<rparr>,
      value_text = \<lparr>buf_aligned = True, buf_bytes = int_text i\<rparr>,
      value_int64 = i\<rparr>"

definition null_value :: sqlite3_value where
  "null_value =
     \<lparr>value_type = SQLITE_NULL,
      value_blob = \<lparr>buf_aligned = True, buf_bytes = []\<rparr>,
      value_text = \<lparr>buf_aligned = True, buf_bytes = []\<rparr>,
      value_int64 = 0\<rparr>"


text \<open>
  A connection for the text \<open>Q;W\<close>: it compiles \<open>Q\<close> to a read-only statement with one
  row, and what is left, \<open>W\<close>, to a statement that writes.
\<close>

definition db_example :: sqlite3 where
  "db_example zSql =
     (if zSql = str ''Q;W''
      then \<lparr>prep_rc = 0,
            prep_stmt = \<lparr>stmt_readonly = True,
                         stmt_sql = Some \<lparr>buf_aligned = False, buf_bytes = str ''Q''\<rparr>,
                         stmt_rows = [[COL_INTEGER 1]]\<rparr>,
            prep_tail = str ''W'', prep_errmsg = []\<rparr>
      else \<lparr>prep_rc = 0,
            prep_stmt = \<lparr>stmt_readonly = False,
                         stmt_sql = Some \<lparr>buf_aligned = False, buf_bytes = str ''W''\<rparr>,
                         stmt_rows = []\<rparr>,
            prep_tail = [], prep_errmsg = []\<rparr>)"


text \<open>The mask that corrects a byte index on the host: 7 swaps the bytes of a lane.\<close>

definition host_mask :: "machine \<Rightarrow> nat" where
  "host_mask m = (if little_endian m then 0 else 7)"



















section \<open>Properties\<close>

subsection \<open>The unrolled rounds and the reference rounds\<close>

lemma ROL64_rotl: "0 < n \<Longrightarrow> n < 64 \<Longrightarrow> ROL64 a n = word_rotl n a"
proof (rule bit_word_eqI)
  fix k assume n: "0 < n" "n < 64" and k: "k < LENGTH(64)"
  have k64: "k < 64" using k by simp
  show "bit (ROL64 a n) k = bit (word_rotl n a) k"
  proof (cases "n \<le> k")
    case True
    then have "(k + (64 - n)) mod 64 = k - n" using n k64 by (simp add: mod_if)
    moreover have "\<not> bit a (64 - n + k)" using True n by (auto dest: bit_imp_le_length)
    ultimately show ?thesis using n k64 True by (simp add: ROL64_def bit_simps)
  next
    case False
    then have "(k + (64 - n)) mod 64 = 64 - n + k" using n k64 by (simp add: add.commute)
    then show ?thesis using n k64 False by (simp add: ROL64_def bit_simps)
  qed
qed

lemma word_rotl_zero: "word_rotl 0 (a :: u64) = a"
  by (rule bit_word_eqI) (simp add: bit_simps)

lemma Suc_Suc_0: "Suc (Suc 0) = 2"
  by simp

lemma upt25: "[0..<25] = [0,1,2,3,4,5,6,7,8,9,10,11,12,13,14,15,16,17,18,19,20,21,22,23,24]"
  by (simp add: upt_rec)

lemmas round_simps = layout1_def layout2_def layout3_def
  spec_round_def spec_iota_def spec_chi_def spec_pi_def spec_rho_def
  spec_theta_def spec_D_def spec_C_def spec_offsets_def
  upt25 Let_def ROL64_rotl word_rotl_zero Suc_Suc_0 ac_simps

lemma round0_spec: "KeccakF1600_round0 rc s = layout1 (spec_round rc s)"
  by (simp add: KeccakF1600_round0_def round_simps)

lemma round1_spec: "KeccakF1600_round1 rc (layout1 T) = layout2 (spec_round rc T)"
  by (simp add: KeccakF1600_round1_def round_simps)

lemma round2_spec: "KeccakF1600_round2 rc (layout2 T) = layout3 (spec_round rc T)"
  by (simp add: KeccakF1600_round2_def round_simps)

lemma round3_spec: "KeccakF1600_round3 rc (layout3 T) = spec_round rc T"
  by (simp add: KeccakF1600_round3_def round_simps)

lemma body_spec:
  "KeccakF1600_body i s =
     spec_round (RC ! (i + 3)) (spec_round (RC ! (i + 2)) (spec_round (RC ! (i + 1)) (spec_round (RC ! i) s)))"
  by (simp add: KeccakF1600_body_def round0_spec round1_spec round2_spec round3_spec)

lemma loop_unroll:
  "KeccakF1600_loop 0 s =
     KeccakF1600_body 20 (KeccakF1600_body 16 (KeccakF1600_body 12
       (KeccakF1600_body 8 (KeccakF1600_body 4 (KeccakF1600_body 0 s)))))"
  by (simp add: KeccakF1600_loop.simps)

lemma RC_spec: "RC = spec_round_constants"
  by (simp add: RC_def spec_round_constants_def)

lemma loop_spec: "KeccakF1600_loop 0 s = spec_keccak_f1600 s"
  by (simp add: loop_unroll body_spec spec_keccak_f1600_def RC_spec spec_round_constants_def)

lemma length_spec_round: "length (spec_round rc A) = 25"
  by (simp add: spec_round_def spec_iota_def spec_chi_def)

lemma length_loop: "length (KeccakF1600_loop 0 s) = 25"
  by (simp add: loop_unroll body_spec length_spec_round)

subsection \<open>Bytes and lanes\<close>

lemma le64_Cons: "le64 (b # bs) = ucast b OR push_bit 8 (le64 bs)"
  by (simp add: le64_def)

lemma bit_le64:
  "bit (le64 bs) n \<longleftrightarrow> n < 64 \<and> n div 8 < length bs \<and> bit (bs ! (n div 8)) (n mod 8)"
proof (induction bs arbitrary: n)
  case Nil
  then show ?case by (simp add: le64_def)
next
  case (Cons b bs)
  show ?case
  proof (cases "n < 8")
    case True
    then show ?thesis by (simp add: le64_Cons bit_simps)
  next
    case False
    then have n8: "8 \<le> n" by simp
    have d: "n div 8 = Suc ((n - 8) div 8)" using n8 by (simp add: le_div_geq)
    have m: "(n - 8) mod 8 = n mod 8" using n8 by (simp add: le_mod_geq)
    have nb: "\<not> bit b n" using n8 by (auto dest: bit_imp_le_length)
    show ?thesis using n8 nb Cons.IH [of "n - 8"]
      by (auto simp: le64_Cons bit_simps d m)
  qed
qed

lemma le64_xor:
  "length as = length bs \<Longrightarrow> le64 as XOR le64 bs = le64 (map2 (XOR) as bs)"
  by (rule bit_word_eqI) (auto simp: bit_le64 bit_simps)

lemma bytes_le_le64: "length bs = 8 \<Longrightarrow> bytes_le (le64 bs) = bs"
proof (rule nth_equalityI)
  show "length bs = 8 \<Longrightarrow> length (bytes_le (le64 bs)) = length bs" by (simp add: bytes_le_def)
next
  fix j assume l: "length bs = 8" and "j < length (bytes_le (le64 bs))"
  then have j: "j < 8" by (simp add: bytes_le_def)
  have "ucast (drop_bit (8 * j) (le64 bs)) = bs ! j"
  proof (rule bit_word_eqI)
    fix k assume "k < LENGTH(8)"
    then have k: "k < 8" by simp
    have "(8 * j + k) div 8 = j" "(8 * j + k) mod 8 = k" using k by simp_all
    moreover have "8 * j + k < 64" using j k by simp
    ultimately show "bit (ucast (drop_bit (8 * j) (le64 bs)) :: u8) k = bit (bs ! j) k"
      using j k l by (simp add: bit_simps bit_le64 add.commute)
  qed
  then show "bytes_le (le64 bs) ! j = bs ! j" using j by (simp add: bytes_le_def)
qed

lemma le64_bytes_le: "le64 (bytes_le w) = w"
proof (rule bit_word_eqI)
  fix n assume "n < LENGTH(64)"
  then have n: "n < 64" by simp
  then have d: "n div 8 < 8" by simp
  have e: "8 * (n div 8) + n mod 8 = n" by simp
  show "bit (le64 (bytes_le w)) n = bit w n"
    using n d by (simp add: bit_le64 bytes_le_def bit_simps e)
qed

lemma length8E:
  assumes "length (l :: 'a list) = 8"
  obtains a0 a1 a2 a3 a4 a5 a6 a7 where "l = [a0, a1, a2, a3, a4, a5, a6, a7]"
  using assms by (auto simp: length_Suc_conv eval_nat_numeral)

lemma load64_xor:
  "length as = length bs \<Longrightarrow> load64 m as XOR load64 m bs = load64 m (map2 (XOR) as bs)"
  by (simp add: load64_def le64_xor zip_rev rev_map)

lemma store64_load64: "length bs = 8 \<Longrightarrow> store64 m (load64 m bs) = bs"
  by (simp add: store64_def load64_def bytes_le_le64)

lemma set_s_xor:
  assumes len: "8 * k + 8 \<le> length xs"
  shows "set_s m xs k (get_s m xs k XOR load64 m [b0, b1, b2, b3, b4, b5, b6, b7]) =
         xs[8 * k := xs ! (8 * k) XOR b0, 8 * k + 1 := xs ! (8 * k + 1) XOR b1,
            8 * k + 2 := xs ! (8 * k + 2) XOR b2, 8 * k + 3 := xs ! (8 * k + 3) XOR b3,
            8 * k + 4 := xs ! (8 * k + 4) XOR b4, 8 * k + 5 := xs ! (8 * k + 5) XOR b5,
            8 * k + 6 := xs ! (8 * k + 6) XOR b6, 8 * k + 7 := xs ! (8 * k + 7) XOR b7]"
proof -
  define pre where "pre = take (8 * k) xs"
  define mid where "mid = take 8 (drop (8 * k) xs)"
  define post where "post = drop (8 * k + 8) xs"
  have lp: "length pre = 8 * k" and lm: "length mid = 8" using len by (simp_all add: pre_def mid_def)
  have xs: "xs = pre @ mid @ post"
    by (simp add: pre_def mid_def post_def take_add [symmetric] add.commute drop_drop [symmetric] del: drop_drop)
  obtain a0 a1 a2 a3 a4 a5 a6 a7 where mid: "mid = [a0, a1, a2, a3, a4, a5, a6, a7]"
    using lm by (rule length8E)
  have g: "get_s m xs k = load64 m mid" by (simp add: get_s_def mid_def)
  have "load64 m mid XOR load64 m [b0, b1, b2, b3, b4, b5, b6, b7] =
        load64 m [a0 XOR b0, a1 XOR b1, a2 XOR b2, a3 XOR b3, a4 XOR b4, a5 XOR b5, a6 XOR b6, a7 XOR b7]"
    by (simp add: mid load64_xor)
  then have "store64 m (load64 m mid XOR load64 m [b0, b1, b2, b3, b4, b5, b6, b7]) =
        [a0 XOR b0, a1 XOR b1, a2 XOR b2, a3 XOR b3, a4 XOR b4, a5 XOR b5, a6 XOR b6, a7 XOR b7]"
    by (simp add: store64_load64)
  then have l: "set_s m xs k (get_s m xs k XOR load64 m [b0, b1, b2, b3, b4, b5, b6, b7]) =
      pre @ [a0 XOR b0, a1 XOR b1, a2 XOR b2, a3 XOR b3, a4 XOR b4, a5 XOR b5, a6 XOR b6, a7 XOR b7] @ post"
    by (simp add: set_s_def g pre_def post_def)
  show ?thesis
    unfolding l by (simp add: xs mid lp list_update_append nth_append)
qed

lemma load64_store64: "load64 m (store64 m w) = w"
  by (simp add: load64_def store64_def le64_bytes_le)

lemma length_store64: "length (store64 m w) = 8"
  by (simp add: store64_def bytes_le_def)

lemma take_drop_blocks:
  "(\<And>a. length (f a) = 8) \<Longrightarrow> k < length L \<Longrightarrow>
     take 8 (drop (8 * k) (concat (map f L) @ r)) = f (L ! k)"
proof (induction L arbitrary: k)
  case Nil
  then show ?case by simp
next
  case (Cons a L)
  show ?case
  proof (cases k)
    case 0
    then show ?thesis using Cons.prems(1) [of a] by simp
  next
    case (Suc j)
    then show ?thesis using Cons.prems Cons.IH [of j] by simp
  qed
qed

lemma length_concat_blocks:
  "(\<And>a. length (f a) = 8) \<Longrightarrow> length (concat (map f L)) = 8 * length L"
  by (induction L) simp_all

lemma get_s_blocks:
  "k < length L \<Longrightarrow> get_s m (concat (map (store64 m) L) @ r) k = L ! k"
  unfolding get_s_def
  by (subst take_drop_blocks) (simp_all add: length_store64 load64_store64)

lemma u_s_Keccak:
  "u_s m (KeccakF1600Step m p) = KeccakF1600_loop 0 (u_s m p)"
proof -
  let ?L = "KeccakF1600_loop 0 (u_s m p)"
  have "map (get_s m (concat (map (store64 m) ?L) @ drop 200 (u_x p))) [0..<25] = map ((!) ?L) [0..<25]"
    by (rule map_cong) (simp_all add: get_s_blocks length_loop)
  also have "\<dots> = ?L" using map_nth [of ?L] by (simp add: length_loop)
  finally show ?thesis by (simp add: u_s_def KeccakF1600Step_def)
qed

lemma Keccak_fields [simp]:
  "nRate (KeccakF1600Step m p) = nRate p"
  "nLoaded (KeccakF1600Step m p) = nLoaded p"
  "ixMask (KeccakF1600Step m p) = ixMask p"
  "nKeccak (KeccakF1600Step m p) = nKeccak p + 1"
  by (simp_all add: KeccakF1600Step_def)

lemma length_Keccak: "length (u_x (KeccakF1600Step m p)) = 200 + (length (u_x p) - 200)"
  by (simp add: KeccakF1600Step_def length_concat_blocks length_store64 length_loop)

lemma drop_Keccak: "drop 200 (u_x (KeccakF1600Step m p)) = drop 200 (u_x p)"
  by (simp add: KeccakF1600Step_def length_concat_blocks length_store64 length_loop)


text \<open>
  C1: for every state, \<^verbatim>\<open>KeccakF1600Step\<close> computes the 24 rounds of Keccak-f[1600] as the
  specification defines them (Theta, Rho with the listed offsets, Pi, Chi, Iota with
  the 24 round constants in round order): the 25 lanes after the call are the
  reference permutation of the 25 lanes before it, bit for bit, for either byte
  order of the host; the bytes of the union beyond the lanes and the counters of the
  context are left as they were.  The loop on the lanes alone equals the reference
  permutation for every list of lanes.
\<close>

theorem KeccakF1600Step_spec:
  "u_s m (KeccakF1600Step m p) = spec_keccak_f1600 (u_s m p)
   \<and> KeccakF1600_loop 0 s = spec_keccak_f1600 s
   \<and> length spec_round_constants = 24
   \<and> drop 200 (u_x (KeccakF1600Step m p)) = drop 200 (u_x p)
   \<and> nRate (KeccakF1600Step m p) = nRate p
   \<and> nLoaded (KeccakF1600Step m p) = nLoaded p
   \<and> ixMask (KeccakF1600Step m p) = ixMask p"
  by (simp add: u_s_Keccak loop_spec drop_Keccak spec_round_constants_def)

lemma xor7_small: "r < 8 \<Longrightarrow> (r::nat) XOR 7 = 7 - r"
proof -
  assume "r < 8"
  then consider "r = 0" | "r = 1" | "r = 2" | "r = 3" | "r = 4" | "r = 5" | "r = 6" | "r = 7"
    by linarith
  then show ?thesis by cases simp_all
qed

lemma xor7_div: "((i::nat) XOR 7) div 8 = i div 8"
proof -
  have "drop_bit 3 (i XOR 7) = drop_bit 3 i XOR drop_bit 3 (7::nat)" by (rule drop_bit_xor)
  moreover have "drop_bit 3 (7::nat) = 0" by (simp add: drop_bit_eq_div)
  ultimately have "drop_bit 3 (i XOR 7) = drop_bit 3 i" by simp
  then show ?thesis by (simp add: drop_bit_eq_div)
qed

lemma xor7_mod: "((i::nat) XOR 7) mod 8 = 7 - i mod 8"
proof -
  have "take_bit 3 (i XOR 7) = take_bit 3 i XOR take_bit 3 7" by simp
  then have "(i XOR 7) mod 8 = (i mod 8) XOR 7" by (simp add: take_bit_eq_mod)
  then show ?thesis by (simp add: xor7_small)
qed

lemma xor7: "(i::nat) XOR 7 = 8 * (i div 8) + (7 - i mod 8)"
proof -
  have "i XOR 7 = 8 * ((i XOR 7) div 8) + (i XOR 7) mod 8" by simp
  then show ?thesis by (simp only: xor7_div xor7_mod)
qed

lemma xor7_less: "i < R \<Longrightarrow> R mod 8 = 0 \<Longrightarrow> (i::nat) XOR 7 < R"
proof -
  assume i: "i < R" and R: "R mod 8 = 0"
  have "i div 8 < R div 8" using i R by (metis div_less_dividend mod_0_imp_dvd dvd_div_mult_self less_mult_imp_div_less mult.commute)
  then have "8 * (i div 8) + 8 \<le> 8 * (R div 8)" by simp
  moreover have "8 * (R div 8) = R" using R by (simp add: mod_0_imp_dvd)
  ultimately show ?thesis unfolding xor7 by simp
qed
subsection \<open>The two loops of SHA3Update\<close>

lemma bytes_append:
  "SHA3Update_bytes m p (a @ b) = SHA3Update_bytes m (SHA3Update_bytes m p a) b"
  by (induction a arbitrary: p) simp_all

lemma byte_fields:
  "nRate (SHA3Update_byte m p b) = nRate p"
  "ixMask (SHA3Update_byte m p b) = ixMask p"
  "nLoaded (SHA3Update_byte m p b) = (if nLoaded p + 1 = nRate p then 0 else nLoaded p + 1)"
  "nKeccak (SHA3Update_byte m p b) = (if nLoaded p + 1 = nRate p then nKeccak p + 1 else nKeccak p)"
  by (simp_all add: SHA3Update_byte_def Let_def)

lemma byte_length:
  "200 \<le> length (u_x p) \<Longrightarrow> length (u_x (SHA3Update_byte m p b)) = length (u_x p)"
  by (simp add: SHA3Update_byte_def Let_def length_Keccak)

lemma word_fields:
  "nRate (SHA3Update_word m p w) = nRate p"
  "ixMask (SHA3Update_word m p w) = ixMask p"
  "nLoaded (SHA3Update_word m p w) = (if nLoaded p + 8 \<ge> nRate p then 0 else nLoaded p + 8)"
  "nKeccak (SHA3Update_word m p w) = (if nLoaded p + 8 \<ge> nRate p then nKeccak p + 1 else nKeccak p)"
  by (simp_all add: SHA3Update_word_def Let_def)

lemma bytes_counters:
  "nLoaded p < nRate p \<Longrightarrow>
     nRate (SHA3Update_bytes m p d) = nRate p \<and>
     ixMask (SHA3Update_bytes m p d) = ixMask p \<and>
     nLoaded (SHA3Update_bytes m p d) = (nLoaded p + length d) mod nRate p \<and>
     nKeccak (SHA3Update_bytes m p d) = nKeccak p + (nLoaded p + length d) div nRate p"
proof (induction d arbitrary: p)
  case Nil
  then show ?case by simp
next
  case (Cons b d)
  let ?q = "SHA3Update_byte m p b"
  show ?case
  proof (cases "nLoaded p + 1 = nRate p")
    case True
    then have q: "nLoaded ?q = 0" "nRate ?q = nRate p" "nKeccak ?q = nKeccak p + 1" "ixMask ?q = ixMask p"
      by (simp_all add: byte_fields)
    have e: "Suc (nLoaded p + length d) = nRate p + length d" using True by simp
    have e1: "Suc (nLoaded p + length d) mod nRate p = length d mod nRate p"
      unfolding e by simp
    have r0: "nRate p \<noteq> 0" using Cons.prems by auto
    have e2: "Suc (nLoaded p + length d) div nRate p = Suc (length d div nRate p)"
      unfolding e by (simp add: div_add_self1 [OF r0])
    have "nLoaded ?q < nRate ?q" using Cons.prems q by simp
    from Cons.IH [OF this] show ?thesis
      by (simp add: q e1 e2)
  next
    case False
    then have q: "nLoaded ?q = nLoaded p + 1" "nRate ?q = nRate p" "nKeccak ?q = nKeccak p" "ixMask ?q = ixMask p"
      by (simp_all add: byte_fields)
    have "nLoaded ?q < nRate ?q" using Cons.prems False q by simp
    from Cons.IH [OF this] show ?thesis by (simp add: q)
  qed
qed

lemma bytes_length:
  "200 \<le> length (u_x p) \<Longrightarrow> length (u_x (SHA3Update_bytes m p d)) = length (u_x p)"
  by (induction d arbitrary: p) (simp_all add: byte_length)

lemma word_length:
  "200 \<le> length (u_x p) \<Longrightarrow> nLoaded p + 8 \<le> length (u_x p) \<Longrightarrow>
     length (u_x (SHA3Update_word m p w)) = length (u_x p)"
  by (simp add: SHA3Update_word_def Let_def length_Keccak set_s_def length_store64)

lemma Suc3: "Suc (Suc (Suc n)) = n + 3"
  by simp

lemma Suc_plus_numeral: "Suc (n + numeral k) = n + numeral (k + num.One)"
  by simp

lemma word_is_bytes:
  assumes bo: "SHA3_BYTEORDER m = 1234"
    and n8: "nLoaded p mod 8 = 0" and r8: "nRate p mod 8 = 0"
    and nr: "nLoaded p < nRate p" and len: "nLoaded p + 8 \<le> length (u_x p)"
  shows "SHA3Update_word m p [b0, b1, b2, b3, b4, b5, b6, b7] =
         SHA3Update_bytes m p [b0, b1, b2, b3, b4, b5, b6, b7]"
proof -
  have k: "8 * (nLoaded p div 8) = nLoaded p" using n8 by (simp add: mod_0_imp_dvd)
  have "nLoaded p div 8 < nRate p div 8"
    using nr n8 r8 by (metis k mod_0_imp_dvd dvd_div_mult_self mult.commute mult_less_cancel1 not_less less_imp_le div_le_mono leD nat_neq_iff)
  then have "8 * (nLoaded p div 8) + 8 \<le> 8 * (nRate p div 8)" by simp
  moreover have "8 * (nRate p div 8) = nRate p" using r8 by (simp add: mod_0_imp_dvd)
  ultimately have le8: "nLoaded p + 8 \<le> nRate p" using k by simp
  have s: "set_s m (u_x p) (nLoaded p div 8)
             (get_s m (u_x p) (nLoaded p div 8) XOR load64 m [b0, b1, b2, b3, b4, b5, b6, b7]) =
           (u_x p)[nLoaded p := u_x p ! nLoaded p XOR b0,
                   nLoaded p + 1 := u_x p ! (nLoaded p + 1) XOR b1,
                   nLoaded p + 2 := u_x p ! (nLoaded p + 2) XOR b2,
                   nLoaded p + 3 := u_x p ! (nLoaded p + 3) XOR b3,
                   nLoaded p + 4 := u_x p ! (nLoaded p + 4) XOR b4,
                   nLoaded p + 5 := u_x p ! (nLoaded p + 5) XOR b5,
                   nLoaded p + 6 := u_x p ! (nLoaded p + 6) XOR b6,
                   nLoaded p + 7 := u_x p ! (nLoaded p + 7) XOR b7]"
    using set_s_xor [of "nLoaded p div 8" "u_x p" m b0 b1 b2 b3 b4 b5 b6 b7] len
    by (simp add: k)
  show ?thesis
    using le8 by (simp add: SHA3Update_word_def SHA3Update_byte_def x_index_def bo Let_def s Suc3 Suc_plus_numeral)
qed

lemma ctx_ok_bytes: "ctx_ok m p \<Longrightarrow> ctx_ok m (SHA3Update_bytes m p d)"
  using bytes_counters [of p m d] bytes_length [of p m d]
  by (simp add: ctx_ok_def)

lemma words_inv:
  "nLoaded p < nRate p \<Longrightarrow>
     nLoaded (fst (SHA3Update_words m p d)) < nRate (fst (SHA3Update_words m p d)) \<and>
     nRate (fst (SHA3Update_words m p d)) = nRate p"
proof (induction m p d rule: SHA3Update_words.induct)
  case (1 m p b0 b1 b2 b3 b4 b5 b6 b7 rest)
  let ?q = "SHA3Update_word m p [b0, b1, b2, b3, b4, b5, b6, b7]"
  have "nLoaded ?q < nRate ?q" using "1.prems" by (simp add: word_fields)
  from "1.IH" [OF this] show ?case by (simp add: word_fields)
qed simp_all

lemma byte_inv:
  "nLoaded p < nRate p \<Longrightarrow>
     nLoaded (SHA3Update_bytes m p d) < nRate (SHA3Update_bytes m p d) \<and>
     nRate (SHA3Update_bytes m p d) = nRate p"
  using bytes_counters [of p m d] by simp

lemma words_bytes:
  "SHA3_BYTEORDER m = 1234 \<Longrightarrow> nLoaded p mod 8 = 0 \<Longrightarrow> ctx_ok m p \<Longrightarrow>
     SHA3Update_bytes m (fst (SHA3Update_words m p d)) (snd (SHA3Update_words m p d)) =
     SHA3Update_bytes m p d"
proof (induction m p d rule: SHA3Update_words.induct)
  case (1 m p b0 b1 b2 b3 b4 b5 b6 b7 rest)
  let ?w = "[b0, b1, b2, b3, b4, b5, b6, b7]"
  let ?q = "SHA3Update_word m p ?w"
  have ok: "ctx_ok m p" by fact
  have len: "nLoaded p + 8 \<le> length (u_x p)" using ok by (simp add: ctx_ok_def)
  have q: "?q = SHA3Update_bytes m p ?w"
    using "1.prems" ok len by (intro word_is_bytes) (simp_all add: ctx_ok_def)
  have okq: "ctx_ok m ?q" unfolding q using ok by (rule ctx_ok_bytes)
  have n8: "nLoaded ?q mod 8 = 0" using "1.prems"(2) by (simp add: word_fields)
  have "SHA3Update_bytes m (fst (SHA3Update_words m ?q rest)) (snd (SHA3Update_words m ?q rest)) =
        SHA3Update_bytes m ?q rest"
    using "1.prems"(1) n8 okq by (rule "1.IH")
  also have "\<dots> = SHA3Update_bytes m p (?w @ rest)"
    unfolding bytes_append q ..
  finally show ?case by simp
qed simp_all

lemma update_bytes:
  assumes ok: "ctx_ok m p"
  shows "SHA3Update m p buf = SHA3Update_bytes m p (buf_bytes buf)"
proof (cases "SHA3_BYTEORDER m = 1234 \<and> nLoaded p mod 8 = 0 \<and> buf_aligned buf")
  case True
  then show ?thesis using ok words_bytes [of m p "buf_bytes buf"]
    by (simp add: SHA3Update_def case_prod_beta)
next
  case False
  then show ?thesis by (auto simp: SHA3Update_def)
qed

lemma fold_update_bytes:
  "ctx_ok m p \<Longrightarrow>
     fold (\<lambda>c p. SHA3Update m p c) cs p = SHA3Update_bytes m p (concat (map buf_bytes cs))"
proof (induction cs arbitrary: p)
  case Nil
  then show ?case by simp
next
  case (Cons c cs)
  have "ctx_ok m (SHA3Update_bytes m p (buf_bytes c))" using Cons.prems by (rule ctx_ok_bytes)
  then show ?case using Cons by (simp add: update_bytes bytes_append)
qed

lemma Init_sizes:
  "nRate (SHA3Init m 224) = 144" "nRate (SHA3Init m 256) = 136"
  "nRate (SHA3Init m 384) = 104" "nRate (SHA3Init m 512) = 72"
  by (simp_all add: SHA3Init_def)

lemma ctx_ok_Init:
  "iSize \<in> {224, 256, 384, 512} \<Longrightarrow> ctx_ok m (SHA3Init m iSize)"
  using Init_sizes [of m] by (auto simp: ctx_ok_def) (simp_all add: SHA3Init_def)
subsection \<open>SHA3Final\<close>

lemma update_one:
  "SHA3Update m p \<lparr>buf_aligned = a, buf_bytes = [c]\<rparr> = SHA3Update_byte m p c"
  by (simp add: SHA3Update_def)

lemma copy_fold:
  assumes f: "\<And>i. i < R \<Longrightarrow> f i < R"
  shows "n \<le> R \<Longrightarrow> R + n \<le> length xs \<Longrightarrow>
     fold (\<lambda>i xs. xs[i + R := xs ! f i]) [0..<n] xs =
     take R xs @ map (\<lambda>i. xs ! f i) [0..<n] @ drop (R + n) xs"
proof (induction n)
  case 0
  then show ?case by simp
next
  case (Suc n)
  let ?M = "map (\<lambda>i. xs ! f i) [0..<n]"
  let ?ys = "take R xs @ ?M @ drop (R + n) xs"
  have fn: "f n < R" using Suc.prems f by simp
  have ih: "fold (\<lambda>i xs. xs[i + R := xs ! f i]) [0..<n] xs = ?ys" using Suc by simp
  have v: "?ys ! f n = xs ! f n" using fn Suc.prems by (simp add: nth_append)
  have d: "drop (R + n) xs = xs ! (R + n) # drop (Suc (R + n)) xs"
    using Suc.prems by (simp add: Cons_nth_drop_Suc)
  have u: "?ys[n + R := xs ! f n] = take R xs @ ?M @ xs ! f n # drop (Suc (R + n)) xs"
    using Suc.prems by (subst d) (simp add: list_update_append)
  show ?case by (simp add: ih v u)
qed

lemma Final_blob:
  assumes ok: "ctx_ok m q" and n: "n \<le> nRate q"
  shows "blob_at (SHA3Final_copy q, nRate q) n =
         take n (map (\<lambda>i. u_x q ! (i XOR ixMask q)) [0..<nRate q])"
proof -
  let ?R = "nRate q"
  have f: "i XOR ixMask q < ?R" if "i < ?R" for i
    using ok that by (auto simp: ctx_ok_def xor7_less)
  have len: "?R + ?R \<le> length (u_x q)" using ok by (simp add: ctx_ok_def)
  have "fold (\<lambda>i xs. xs[i + ?R := xs ! (i XOR ixMask q)]) [0..<?R] (u_x q) =
        take ?R (u_x q) @ map (\<lambda>i. u_x q ! (i XOR ixMask q)) [0..<?R] @ drop (?R + ?R) (u_x q)"
    using f len by (intro copy_fold) simp_all
  then show ?thesis using n len by (simp add: blob_at_def SHA3Final_copy_def)
qed

lemma Final_pad_fields:
  assumes "0 < nRate p"
  shows "nKeccak (SHA3Final_pad m p) = nKeccak p + 1"
    and "nLoaded (SHA3Final_pad m p) = 0"
    and "nRate (SHA3Final_pad m p) = nRate p"
    and "ixMask (SHA3Final_pad m p) = ixMask p"
  using assms by (auto simp: SHA3Final_pad_def local_byte_def update_one byte_fields Let_def)

lemma Final_pad_length:
  "200 \<le> length (u_x p) \<Longrightarrow> length (u_x (SHA3Final_pad m p)) = length (u_x p)"
  by (simp add: SHA3Final_pad_def local_byte_def update_one byte_length Let_def)

lemma ctx_ok_Final_pad: "ctx_ok m p \<Longrightarrow> ctx_ok m (SHA3Final_pad m p)"
  using Final_pad_fields [of p m] Final_pad_length [of p m] by (simp add: ctx_ok_def)
subsection \<open>The sponge: initialisation, absorption, padding\<close>

lemma le64_zero: "le64 (replicate n 0) = 0"
  by (induction n) (simp_all add: le64_def)

lemma u_s_Init: "u_s m (SHA3Init m iSize) = replicate 25 0"
proof -
  have "get_s m (replicate 1600 0) k = 0" if "k < 25" for k
    using that by (simp add: get_s_def load64_def le64_zero)
  then have "map (get_s m (replicate 1600 0)) [0..<25] = map (\<lambda>k. 0) [0..<25]"
    by (intro map_cong) simp_all
  then show ?thesis by (simp add: u_s_def SHA3Init_def map_replicate_const)
qed

lemma update_inv:
  "nLoaded p < nRate p \<Longrightarrow>
     nLoaded (SHA3Update m p buf) < nRate (SHA3Update m p buf) \<and> nRate (SHA3Update m p buf) = nRate p"
  using words_inv [of p m "buf_bytes buf"]
    byte_inv [of "fst (SHA3Update_words m p (buf_bytes buf))" m "snd (SHA3Update_words m p (buf_bytes buf))"]
    byte_inv [of p m "buf_bytes buf"]
  by (simp add: SHA3Update_def case_prod_beta)

text \<open>
  C4: after \<^verbatim>\<open>SHA3Init\<close> with one of the four sizes the rate is \<open>(1600 - 2*iSize)/8\<close>, that
  is 144, 136, 104 and 72 bytes for 224, 256, 384 and 512 bits, the union (and so each
  of the 25 lanes) is zero and \<open>nLoaded\<close> is 0.  Every \<^verbatim>\<open>SHA3Update\<close> keeps
  \<open>nLoaded < nRate\<close> and leaves the rate alone.  In both loops the permutation runs at
  once when \<open>nLoaded\<close> reaches \<open>nRate\<close>, and \<open>nLoaded\<close> is 0 afterwards; otherwise no
  permutation runs.  For a context as \<^verbatim>\<open>SHA3Init\<close> and \<^verbatim>\<open>SHA3Update\<close> leave it, a call
  with \<open>n\<close> bytes ends with \<open>(nLoaded + n) mod nRate\<close> bytes loaded after
  \<open>(nLoaded + n) div nRate\<close> permutations.
\<close>

theorem SHA3Init_SHA3Update_invariant:
  "(iSize \<in> {224, 256, 384, 512} \<longrightarrow>
      nRate (SHA3Init m iSize) = nat ((1600 - 2 * iSize) div 8) \<and>
      nRate (SHA3Init m iSize) \<in> {144, 136, 104, 72} \<and>
      u_x (SHA3Init m iSize) = replicate 1600 0 \<and>
      u_s m (SHA3Init m iSize) = replicate 25 0 \<and>
      nLoaded (SHA3Init m iSize) = 0 \<and>
      ctx_ok m (SHA3Init m iSize))
   \<and> nRate (SHA3Init m 224) = 144 \<and> nRate (SHA3Init m 256) = 136
   \<and> nRate (SHA3Init m 384) = 104 \<and> nRate (SHA3Init m 512) = 72
   \<and> (nLoaded p < nRate p \<longrightarrow>
        nLoaded (SHA3Update m p buf) < nRate (SHA3Update m p buf) \<and>
        nRate (SHA3Update m p buf) = nRate p)
   \<and> nLoaded (SHA3Update_byte m p b) = (if nLoaded p + 1 = nRate p then 0 else nLoaded p + 1)
   \<and> nKeccak (SHA3Update_byte m p b) = (if nLoaded p + 1 = nRate p then nKeccak p + 1 else nKeccak p)
   \<and> nLoaded (SHA3Update_word m p w) = (if nLoaded p + 8 \<ge> nRate p then 0 else nLoaded p + 8)
   \<and> nKeccak (SHA3Update_word m p w) = (if nLoaded p + 8 \<ge> nRate p then nKeccak p + 1 else nKeccak p)
   \<and> (ctx_ok m p \<longrightarrow>
        ctx_ok m (SHA3Update m p buf) \<and>
        nLoaded (SHA3Update m p buf) = (nLoaded p + length (buf_bytes buf)) mod nRate p \<and>
        nKeccak (SHA3Update m p buf) = nKeccak p + (nLoaded p + length (buf_bytes buf)) div nRate p)"
proof -
  have a: "iSize \<in> {224, 256, 384, 512} \<longrightarrow>
      nRate (SHA3Init m iSize) = nat ((1600 - 2 * iSize) div 8) \<and>
      nRate (SHA3Init m iSize) \<in> {144, 136, 104, 72}"
    using Init_sizes [of m] by auto
  have b: "u_x (SHA3Init m iSize) = replicate 1600 0" "nLoaded (SHA3Init m iSize) = 0"
    by (simp_all add: SHA3Init_def)
  have c: "ctx_ok m p \<longrightarrow>
        ctx_ok m (SHA3Update m p buf) \<and>
        nLoaded (SHA3Update m p buf) = (nLoaded p + length (buf_bytes buf)) mod nRate p \<and>
        nKeccak (SHA3Update m p buf) = nKeccak p + (nLoaded p + length (buf_bytes buf)) div nRate p"
    using bytes_counters [of p m "buf_bytes buf"] ctx_ok_bytes [of m p "buf_bytes buf"]
    by (auto simp: update_bytes ctx_ok_def)
  have a': "iSize \<in> {224, 256, 384, 512} \<longrightarrow>
      nRate (SHA3Init m iSize) = nat ((1600 - 2 * iSize) div 8) \<and>
      nRate (SHA3Init m iSize) \<in> {144, 136, 104, 72} \<and>
      u_x (SHA3Init m iSize) = replicate 1600 0 \<and>
      u_s m (SHA3Init m iSize) = replicate 25 0 \<and>
      nLoaded (SHA3Init m iSize) = 0 \<and>
      ctx_ok m (SHA3Init m iSize)"
    using a b u_s_Init [of m iSize] ctx_ok_Init [of iSize m] by blast
  have d: "nLoaded p < nRate p \<longrightarrow>
        nLoaded (SHA3Update m p buf) < nRate (SHA3Update m p buf) \<and>
        nRate (SHA3Update m p buf) = nRate p"
    using update_inv [of p m buf] by blast
  show ?thesis
    by (intro conjI a' d c Init_sizes byte_fields word_fields)
qed

theorem SHA3Init_SHA3Update_invariant_witness:
  "nRate (SHA3Init host_le 256) = 136 \<and>
   nLoaded (SHA3Update host_le (SHA3Init host_le 256) \<lparr>buf_aligned = True, buf_bytes = [1, 2, 3]\<rparr>) = 3 \<and>
   nKeccak (SHA3Update host_le (SHA3Init host_le 256) \<lparr>buf_aligned = True, buf_bytes = [1, 2, 3]\<rparr>) = 0"
proof -
  have h: "(256::int) \<in> {224, 256, 384, 512}"
    by simp
  show ?thesis
    using h SHA3Init_SHA3Update_invariant [of 256 host_le "SHA3Init host_le 256"
        "\<lparr>buf_aligned = True, buf_bytes = [1, 2, 3]\<rparr>"]
    by (simp add: SHA3Init_def)
qed

text \<open>
  C3: for each of the four sizes, on every host and build, the digest depends only
  on the bytes of the message, not on how they are cut into chunks nor on which
  chunks are aligned: two chunk lists with the same concatenation leave the same
  context and give the same digest.  In particular every \<^verbatim>\<open>SHA3Update\<close> on a context so
  reached, whether it takes the word loop or not, leaves the context the byte loop
  alone would leave.
\<close>

theorem chunk_independence:
  assumes "iSize \<in> {224, 256, 384, 512}"
    and "concat (map buf_bytes cs) = concat (map buf_bytes cs')"
  shows "sha3_chunks m iSize cs = sha3_chunks m iSize cs'
     \<and> sha3_context m iSize cs = sha3_context m iSize cs'
     \<and> sha3_context m iSize cs = SHA3Update_bytes m (SHA3Init m iSize) (concat (map buf_bytes cs))
     \<and> SHA3Update m (sha3_context m iSize cs) b =
        SHA3Update_bytes m (sha3_context m iSize cs) (buf_bytes b)"
proof -
  have ok: "ctx_ok m (SHA3Init m iSize)" using assms(1) by (rule ctx_ok_Init)
  have c: "sha3_context m iSize ds = SHA3Update_bytes m (SHA3Init m iSize) (concat (map buf_bytes ds))" for ds
    unfolding sha3_context_def using ok by (rule fold_update_bytes)
  have "ctx_ok m (sha3_context m iSize cs)" unfolding c using ok by (rule ctx_ok_bytes)
  then have "SHA3Update m (sha3_context m iSize cs) b =
        SHA3Update_bytes m (sha3_context m iSize cs) (buf_bytes b)"
    by (simp add: update_bytes)
  moreover have "sha3_context m iSize cs = sha3_context m iSize cs'"
    using assms(2) by (simp add: c)
  ultimately show ?thesis using c [of cs] by (simp add: sha3_chunks_def)
qed

theorem chunk_independence_witness:
  "sha3_chunks host_le 256 [\<lparr>buf_aligned = True, buf_bytes = [1, 2, 3, 4, 5, 6, 7, 8, 9]\<rparr>] =
   sha3_chunks host_le 256 [\<lparr>buf_aligned = False, buf_bytes = [1]\<rparr>,
                            \<lparr>buf_aligned = True, buf_bytes = [2, 3, 4, 5, 6, 7, 8, 9]\<rparr>]"
proof -
  have h: "(256::int) \<in> {224, 256, 384, 512}"
    by simp
  have e: "concat (map buf_bytes [\<lparr>buf_aligned = True, buf_bytes = [1, 2, 3, 4, 5, 6, 7, 8, 9 :: u8]\<rparr>]) =
           concat (map buf_bytes [\<lparr>buf_aligned = False, buf_bytes = [1]\<rparr>,
                            \<lparr>buf_aligned = True, buf_bytes = [2, 3, 4, 5, 6, 7, 8, 9]\<rparr>])"
    by simp
  show ?thesis using chunk_independence [OF h e] by simp
qed

text \<open>
  C2: for a context as \<^verbatim>\<open>SHA3Init\<close> (with one of the four sizes) and \<^verbatim>\<open>SHA3Update\<close> leave
  it, whatever the number of bytes absorbed, \<^verbatim>\<open>SHA3Final\<close> pads as follows.  If
  \<open>nLoaded = nRate - 1\<close> it absorbs the one byte 0x86: that byte is XOR-ed into the
  union, and the permutation runs.  Otherwise it absorbs 0x06, which runs no
  permutation, sets \<open>nLoaded\<close> to \<open>nRate - 1\<close> and absorbs 0x80, which runs it.  So
  exactly one permutation runs in the call.  The \<open>iSize/8\<close> bytes at the pointer
  returned are the first \<open>iSize/8\<close> of the first \<open>nRate\<close> bytes of the union after
  the permutation, read at \<open>i XOR ixMask\<close>; they are exactly \<open>iSize/8\<close> bytes.
\<close>

theorem SHA3Final_padding:
  assumes ok: "ctx_ok m p" and sz: "iSize \<in> {224, 256, 384, 512}"
    and rate: "nRate p = nat ((1600 - 2 * iSize) div 8)"
  shows "(nLoaded p = nRate p - 1 \<longrightarrow>
            SHA3Final_pad m p = SHA3Update m p (local_byte m ''c1'' 0x86) \<and>
            SHA3Final_pad m p =
              (KeccakF1600Step m
                 (p\<lparr>u_x := (u_x p)[x_index m p := u_x p ! x_index m p XOR 0x86],
                    nLoaded := nRate p\<rparr>))\<lparr>nLoaded := 0\<rparr>)
     \<and> (nLoaded p \<noteq> nRate p - 1 \<longrightarrow>
            SHA3Final_pad m p =
              SHA3Update m ((SHA3Update m p (local_byte m ''c2'' 0x06))\<lparr>nLoaded := nRate p - 1\<rparr>)
                (local_byte m ''c3'' 0x80) \<and>
            SHA3Update m p (local_byte m ''c2'' 0x06) =
              p\<lparr>u_x := (u_x p)[x_index m p := u_x p ! x_index m p XOR 0x06],
                 nLoaded := nLoaded p + 1\<rparr> \<and>
            nKeccak (SHA3Update m p (local_byte m ''c2'' 0x06)) = nKeccak p)
     \<and> nKeccak (SHA3Final_pad m p) = nKeccak p + 1
     \<and> nKeccak (fst (SHA3Final m p)) = nKeccak p + 1
     \<and> snd (SHA3Final m p) = nRate p
     \<and> blob_at (SHA3Final m p) (nat (iSize div 8)) =
         take (nat (iSize div 8))
           (map (\<lambda>i. u_x (SHA3Final_pad m p) ! (i XOR ixMask p)) [0..<nRate p])
     \<and> length (blob_at (SHA3Final m p) (nat (iSize div 8))) = nat (iSize div 8)"
proof -
  have r0: "0 < nRate p" and lt: "nLoaded p < nRate p" using ok by (auto simp: ctx_ok_def)
  let ?q = "SHA3Final_pad m p"
  have f: "nKeccak ?q = nKeccak p + 1" "nRate ?q = nRate p" "ixMask ?q = ixMask p"
    using r0 by (simp_all add: Final_pad_fields)
  have okq: "ctx_ok m ?q" using ok by (rule ctx_ok_Final_pad)
  have n: "nat (iSize div 8) \<le> nRate ?q" using sz rate by (auto simp: f)
  have blob: "blob_at (SHA3Final m p) (nat (iSize div 8)) =
         take (nat (iSize div 8)) (map (\<lambda>i. u_x ?q ! (i XOR ixMask p)) [0..<nRate p])"
    using Final_blob [OF okq n] by (simp add: SHA3Final_def SHA3Final_copy_def Let_def f)
  have len: "length (blob_at (SHA3Final m p) (nat (iSize div 8))) = nat (iSize div 8)"
    unfolding blob using n by (simp add: f)
  have one: "nLoaded p = nRate p - 1 \<longrightarrow>
            SHA3Final_pad m p = SHA3Update m p (local_byte m ''c1'' 0x86) \<and>
            SHA3Final_pad m p =
              (KeccakF1600Step m
                 (p\<lparr>u_x := (u_x p)[x_index m p := u_x p ! x_index m p XOR 0x86],
                    nLoaded := nRate p\<rparr>))\<lparr>nLoaded := 0\<rparr>"
    using r0 by (auto simp: SHA3Final_pad_def local_byte_def update_one SHA3Update_byte_def Let_def)
  have two: "nLoaded p \<noteq> nRate p - 1 \<longrightarrow>
            SHA3Final_pad m p =
              SHA3Update m ((SHA3Update m p (local_byte m ''c2'' 0x06))\<lparr>nLoaded := nRate p - 1\<rparr>)
                (local_byte m ''c3'' 0x80) \<and>
            SHA3Update m p (local_byte m ''c2'' 0x06) =
              p\<lparr>u_x := (u_x p)[x_index m p := u_x p ! x_index m p XOR 0x06],
                 nLoaded := nLoaded p + 1\<rparr> \<and>
            nKeccak (SHA3Update m p (local_byte m ''c2'' 0x06)) = nKeccak p"
    using r0 by (auto simp: SHA3Final_pad_def local_byte_def update_one SHA3Update_byte_def Let_def)
  have k: "nKeccak (fst (SHA3Final m p)) = nKeccak p + 1" "snd (SHA3Final m p) = nRate p"
    using f by (simp_all add: SHA3Final_def SHA3Final_copy_def Let_def)
  show ?thesis
    by (intro conjI one two f(1) k blob len)
qed

theorem SHA3Final_padding_witness:
  "length (blob_at (SHA3Final host_le (SHA3Init host_le 256)) 32) = 32 \<and>
   nKeccak (fst (SHA3Final host_le (SHA3Init host_le 256))) = 1"
proof -
  have h: "ctx_ok host_le (SHA3Init host_le 256)" "(256::int) \<in> {224, 256, 384, 512}"
    "nRate (SHA3Init host_le 256) = nat ((1600 - 2 * 256) div 8)"
    by (simp_all add: ctx_ok_def SHA3Init_def host_le_def)
  show ?thesis using SHA3Final_padding [OF h] by (simp add: SHA3Init_def)
qed
subsection \<open>The SQL functions\<close>

lemma ucast_and_ff: "(ucast ((u :: u64) AND 0xff) :: u8) = ucast u"
proof -
  have m: "(0xff :: u64) = mask 8" by (simp add: mask_eq_exp_minus_1)
  show ?thesis unfolding m by (rule bit_word_eqI) (simp add: bit_simps)
qed

lemma encode_u64_bytes:
  "encode_u64 c v =
     [of_char c, ucast (drop_bit 56 v), ucast (drop_bit 48 v), ucast (drop_bit 40 v),
      ucast (drop_bit 32 v), ucast (drop_bit 24 v), ucast (drop_bit 16 v),
      ucast (drop_bit 8 v), ucast v]"
  by (simp add: encode_u64_def eval_nat_numeral ucast_and_ff)

lemma ucast_drop_word_of_int:
  "n \<le> 56 \<Longrightarrow> (ucast (drop_bit n (word_of_int i :: u64)) :: u8) = word_of_int (drop_bit n i)"
  by (rule bit_word_eqI) (auto simp: bit_simps)

text \<open>
  C6: an integer column is hashed as the nine bytes \<open>I\<close>, then the eight bytes of the
  64-bit value with the most significant byte first, for every 64-bit value: the byte
  at position \<open>1 + k\<close> holds the bits \<open>8*(7-k) .. 8*(7-k)+7\<close> of the value, so read in
  reverse (least significant first) the eight bytes are the value again.  For an
  integer \<open>i\<close> these are the bits of the two's-complement representation of \<open>i\<close>.
\<close>

theorem integer_encoding:
  "encode_u64 CHR ''I'' v =
     [0x49, ucast (drop_bit 56 v), ucast (drop_bit 48 v), ucast (drop_bit 40 v),
      ucast (drop_bit 32 v), ucast (drop_bit 24 v), ucast (drop_bit 16 v),
      ucast (drop_bit 8 v), ucast v]
   \<and> length (encode_u64 CHR ''I'' v) = 9
   \<and> le64 (rev (tl (encode_u64 CHR ''I'' v))) = v
   \<and> tl (encode_u64 CHR ''I'' (word_of_int i)) =
       [word_of_int (drop_bit 56 i), word_of_int (drop_bit 48 i), word_of_int (drop_bit 40 i),
        word_of_int (drop_bit 32 i), word_of_int (drop_bit 24 i), word_of_int (drop_bit 16 i),
        word_of_int (drop_bit 8 i), word_of_int i]
   \<and> hash_column m cx (COL_INTEGER v) =
       SHA3Update m cx \<lparr>buf_aligned = local_aligned m ''x'', buf_bytes = encode_u64 CHR ''I'' v\<rparr>"
proof -
  have "rev (tl (encode_u64 CHR ''I'' v)) = bytes_le v"
    by (simp add: encode_u64_bytes bytes_le_def upt_rec)
  then have a: "le64 (rev (tl (encode_u64 CHR ''I'' v))) = v" by (simp add: le64_bytes_le)
  have z: "(ucast (word_of_int i :: u64) :: u8) = word_of_int i"
    using ucast_drop_word_of_int [of 0 i] by simp
  have b: "tl (encode_u64 CHR ''I'' (word_of_int i)) =
       [word_of_int (drop_bit 56 i), word_of_int (drop_bit 48 i), word_of_int (drop_bit 40 i),
        word_of_int (drop_bit 32 i), word_of_int (drop_bit 24 i), word_of_int (drop_bit 16 i),
        word_of_int (drop_bit 8 i), word_of_int i]"
    by (simp add: encode_u64_bytes ucast_drop_word_of_int z)
  show ?thesis using a b by (simp add: encode_u64_bytes)
qed

lemma sqlite3_value_int_examples:
  "sqlite3_value_int (int_value 128) = 128"
  "sqlite3_value_int (int_value 224) = 224"
  "sqlite3_value_int (int_value 256) = 256"
  "sqlite3_value_int (int_value 384) = 384"
  "sqlite3_value_int (int_value 512) = 512"
  "sqlite3_value_int (int_value 4294967552) = 256"
  by (simp_all add: sqlite3_value_int_def int_value_def)

text \<open>
  C8: \<^verbatim>\<open>sha3\<close> of an SQL NULL, with no size argument or with one of the four sizes, sets
  no result (the SQL NULL), calls \<^verbatim>\<open>SHA3Init\<close> on no context and runs no permutation.
\<close>

theorem sha3_of_null:
  assumes "value_type (argv ! 0) = SQLITE_NULL"
    and "length argv = 1 \<or> sqlite3_value_int (argv ! 1) \<in> {224, 256, 384, 512}"
  shows "sha3Func m argv = (ResultNull, None) \<and> permutations (snd (sha3Func m argv)) = 0"
  using assms by (auto simp: sha3Func_def permutations_def)

theorem sha3_of_null_witness:
  "sha3Func host_le [null_value] = (ResultNull, None)
   \<and> sha3Func host_le [null_value, int_value 384] = (ResultNull, None)"
proof -
  have h: "value_type ([null_value] ! 0) = SQLITE_NULL"
    "length [null_value] = 1 \<or> sqlite3_value_int ([null_value] ! 1) \<in> {224, 256, 384, 512}"
    by (simp_all add: null_value_def)
  have k: "value_type ([null_value, int_value 384] ! 0) = SQLITE_NULL"
    "length [null_value, int_value 384] = 1 \<or>
     sqlite3_value_int ([null_value, int_value 384] ! 1) \<in> {224, 256, 384, 512}"
    by (simp_all add: null_value_def sqlite3_value_int_examples)
  show ?thesis
    using sha3_of_null [OF h, of host_le] sha3_of_null [OF k, of host_le] by simp
qed

text \<open>
  C10: \<^verbatim>\<open>sha3_query\<close> of an SQL NULL text, with no size argument or with one of the four
  sizes, sets no result and no error, calls \<^verbatim>\<open>SHA3Init\<close> on no context and runs no
  permutation; the connection is not asked anything.  The size is checked first: with
  a size argument that is none of the four, the NULL text still gives the size error.
\<close>

theorem sha3_query_of_null:
  assumes "value_type (argv ! 0) = SQLITE_NULL"
  shows "(length argv = 1 \<or> sqlite3_value_int (argv ! 1) \<in> {224, 256, 384, 512} \<longrightarrow>
            sha3QueryFunc m db argv = Some (ResultNull, None) \<and>
            permutations (snd (the (sha3QueryFunc m db argv))) = 0)
     \<and> (length argv = 2 \<and> sqlite3_value_int (argv ! 1) \<notin> {224, 256, 384, 512} \<longrightarrow>
            sha3QueryFunc m db argv = Some (ResultError size_error, None))"
  using assms by (auto simp: sha3QueryFunc_def permutations_def)

theorem sha3_query_of_null_witness:
  "sha3QueryFunc host_le db_example [null_value] = Some (ResultNull, None)
   \<and> sha3QueryFunc host_le db_example [null_value, int_value 128] =
       Some (ResultError size_error, None)"
proof -
  have h: "value_type ([null_value] ! 0) = SQLITE_NULL" by (simp add: null_value_def)
  have k: "value_type ([null_value, int_value 128] ! 0) = SQLITE_NULL" by (simp add: null_value_def)
  show ?thesis
    using sha3_query_of_null [OF h, of host_le db_example]
      sha3_query_of_null [OF k, of host_le db_example]
    by (simp add: sqlite3_value_int_examples)
qed

lemma loop_non_query:
  "reaches db zSql r \<Longrightarrow> prep_rc r = 0 \<Longrightarrow> \<not> stmt_readonly (prep_stmt r) \<Longrightarrow>
     \<exists>cx'. sha3Query_loop m db cx zSql =
       Some (Inl (ResultError (str ''non-query: ['' @
               (case stmt_sql (prep_stmt r) of None \<Rightarrow> [] | Some z \<Rightarrow> buf_bytes z) @ str '']''), cx'))"
proof (induction arbitrary: cx rule: reaches.induct)
  case (first zSql db)
  then show ?case by (subst sha3Query_loop.simps) simp
next
  case (later zSql db z r)
  from later.IH [OF later.prems] obtain cx' where
    "sha3Query_loop m db (hash_stmt m cx z (stmt_rows (prep_stmt (db zSql)))) (prep_tail (db zSql)) =
       Some (Inl (ResultError (str ''non-query: ['' @
               (case stmt_sql (prep_stmt r) of None \<Rightarrow> [] | Some z \<Rightarrow> buf_bytes z) @ str '']''), cx'))"
    by blast
  then show ?case using later.hyps by (subst sha3Query_loop.simps) simp
qed

text \<open>
  C9: when the loop of \<^verbatim>\<open>sha3_query\<close> comes to a statement that is not read-only, after
  any number of statements that compiled, were read-only and were hashed, the call
  returns the error \<open>non-query: [\<close>text of that statement\<open>]\<close>: it returns (the loop does
  not run on), the result is that error and not a blob, so no digest of the earlier
  statements is produced.
\<close>

theorem non_query_error:
  assumes "length argv = 1 \<or> sqlite3_value_int (argv ! 1) \<in> {224, 256, 384, 512}"
    and "value_type (argv ! 0) \<noteq> SQLITE_NULL"
    and "reaches db (takeWhile (\<lambda>c. c \<noteq> 0) (buf_bytes (value_text (argv ! 0)))) r"
    and "prep_rc r = 0" and "\<not> stmt_readonly (prep_stmt r)"
    and "stmt_sql (prep_stmt r) = Some z"
  shows "(\<exists>cx. sha3QueryFunc m db argv =
            Some (ResultError (str ''non-query: ['' @ buf_bytes z @ str '']''), Some cx))
     \<and> (\<forall>d c. sha3QueryFunc m db argv \<noteq> Some (ResultBlob d, c))
     \<and> sha3QueryFunc m db argv \<noteq> None"
proof -
  let ?iSize = "if length argv = 1 then 256 else sqlite3_value_int (argv ! 1)"
  from loop_non_query [OF assms(3,4,5), of m "SHA3Init m ?iSize"] obtain cx where
    "sha3Query_loop m db (SHA3Init m ?iSize)
       (takeWhile (\<lambda>c. c \<noteq> 0) (buf_bytes (value_text (argv ! 0)))) =
     Some (Inl (ResultError (str ''non-query: ['' @ buf_bytes z @ str '']''), cx))"
    using assms(6) by auto
  then have "sha3QueryFunc m db argv =
     Some (ResultError (str ''non-query: ['' @ buf_bytes z @ str '']''), Some cx)"
    using assms(1,2) by (auto simp: sha3QueryFunc_def Let_def)
  then show ?thesis by simp
qed

theorem non_query_error_witness:
  "\<exists>cx. sha3QueryFunc host_le db_example [text_value ''Q;W''] =
          Some (ResultError (str ''non-query: [W]''), Some cx)"
proof -
  let ?r = "db_example (str ''W'')"
  have t: "takeWhile (\<lambda>c. c \<noteq> 0) (buf_bytes (value_text ([text_value ''Q;W''] ! 0))) = str ''Q;W''"
    by (simp add: text_value_def str_def)
  have r1: "reaches db_example (str ''W'') ?r"
    by (rule reaches.first) (simp add: str_def)
  have r2: "reaches db_example (str ''Q;W'') ?r"
    using reaches.later [of "str ''Q;W''" db_example "\<lparr>buf_aligned = False, buf_bytes = str ''Q''\<rparr>" ?r] r1
    by (simp add: db_example_def str_def)
  have h: "length [text_value ''Q;W''] = 1 \<or> sqlite3_value_int ([text_value ''Q;W''] ! 1) \<in> {224, 256, 384, 512}"
    "value_type ([text_value ''Q;W''] ! 0) \<noteq> SQLITE_NULL"
    "reaches db_example (takeWhile (\<lambda>c. c \<noteq> 0) (buf_bytes (value_text ([text_value ''Q;W''] ! 0)))) ?r"
    "prep_rc ?r = 0" "\<not> stmt_readonly (prep_stmt ?r)"
    "stmt_sql (prep_stmt ?r) = Some \<lparr>buf_aligned = False, buf_bytes = str ''W''\<rparr>"
    using r2 by (simp_all add: t) (simp_all add: text_value_def db_example_def str_def)
  show ?thesis using non_query_error [OF h, of host_le] by (simp add: str_def)
qed
subsection \<open>The sponge on the lanes\<close>



lemma host_mask_less: "n < R \<Longrightarrow> R mod 8 = 0 \<Longrightarrow> n XOR host_mask m < R"
  by (simp add: host_mask_def xor7_less)










lemma u_s_nLoaded [simp]: "u_s m (p\<lparr>nLoaded := n\<rparr>) = u_s m p"
  by (simp add: u_s_def)








subsection \<open>Computing the permutation\<close>
























































subsection \<open>The size argument\<close>

text \<open>
  Inside the range of the C \<^verbatim>\<open>int\<close>, \<^verbatim>\<open>sqlite3_value_int\<close> returns the SQL integer itself.
\<close>

lemma sqlite3_value_int_range:
  assumes "- (2 ^ 31) \<le> sint (value_int64 v)" and "sint (value_int64 v) < 2 ^ 31"
  shows "sqlite3_value_int v = sint (value_int64 v)"
proof -
  have "sint (ucast (value_int64 v) :: 32 word) = signed_take_bit 31 (sint (value_int64 v))"
    by (rule bit_eqI) (auto simp add: bit_simps min_def)
  also have "\<dots> = sint (value_int64 v)"
    using assms by (simp add: signed_take_bit_int_eq_self)
  finally show ?thesis by (simp add: sqlite3_value_int_def)
qed





end
